theory Spec2Isabelle
  imports Complex_Main "HOL-Library.Word" "HOL-Library.Sublist" "HOL-Library.Multiset"
    "HOL-Library.List_Lexorder"
begin

section \<open>JavaScript strings\<close>

text \<open>
  A JavaScript string is a sequence of UTF-16 code units. String literals of the source
  are ASCII and are written \<open>str ''...''\<close>.
\<close>

type_synonym jsstring = "16 word list"

definition str :: "string \<Rightarrow> jsstring" where
  "str s = map of_char s"

text \<open>\<open>s.split(sep)\<close> for a separator of one code unit: never empty, \<open>''''.split\<close> is \<open>['''']\<close>.\<close>

fun split :: "16 word \<Rightarrow> jsstring \<Rightarrow> jsstring list" where
  "split sep [] = [[]]"
| "split sep (c # cs) =
     (if c = sep then [] # split sep cs
      else (case split sep cs of [] \<Rightarrow> [[c]] | l # ls \<Rightarrow> (c # l) # ls))"

text \<open>\<open>xs.join(sep)\<close>.\<close>

fun join :: "jsstring \<Rightarrow> jsstring list \<Rightarrow> jsstring" where
  "join sep [] = []"
| "join sep [x] = x"
| "join sep (x # y # ys) = x @ sep @ join sep (y # ys)"

text \<open>
  The code units \<open>s.trim()\<close> strips: ECMAScript WhiteSpace and LineTerminator, all of
  them in the Basic Multilingual Plane.
\<close>

definition isWhiteSpace :: "16 word \<Rightarrow> bool" where
  "isWhiteSpace c \<longleftrightarrow>
     c \<in> set [0x09, 0x0A, 0x0B, 0x0C, 0x0D, 0x20, 0xA0, 0x1680,
              0x2028, 0x2029, 0x202F, 0x205F, 0x3000, 0xFEFF]
     \<or> (0x2000 \<le> c \<and> c \<le> 0x200A)"

definition trim :: "jsstring \<Rightarrow> jsstring" where
  "trim s = rev (dropWhile isWhiteSpace (rev (dropWhile isWhiteSpace s)))"

text \<open>\<open>s.replace(/c/g, r)\<close> for a pattern of one literal code unit and a replacement
  without \<open>$\<close>.\<close>

fun replaceAll :: "16 word \<Rightarrow> jsstring \<Rightarrow> jsstring \<Rightarrow> jsstring" where
  "replaceAll c r [] = []"
| "replaceAll c r (x # xs) = (if x = c then r @ replaceAll c r xs else x # replaceAll c r xs)"

text \<open>\<open>s.startsWith(p)\<close>, \<open>s.endsWith(p)\<close> and \<open>s.includes(p)\<close>.\<close>

fun startsWith :: "jsstring \<Rightarrow> jsstring \<Rightarrow> bool" where
  "startsWith s [] = True"
| "startsWith [] (p # ps) = False"
| "startsWith (c # cs) (p # ps) = (c = p \<and> startsWith cs ps)"

definition endsWith :: "jsstring \<Rightarrow> jsstring \<Rightarrow> bool" where
  "endsWith s p = startsWith (rev s) (rev p)"

fun includes_js :: "jsstring \<Rightarrow> jsstring \<Rightarrow> bool" where
  "includes_js [] p = (p = [])"
| "includes_js (c # cs) p = (startsWith (c # cs) p \<or> includes_js cs p)"

text \<open>\<open>s.toLowerCase()\<close> on the ASCII letters; used on file names only to test an ASCII suffix,
  where the other code units play no role.\<close>

definition toLowerASCII :: "16 word \<Rightarrow> 16 word" where
  "toLowerASCII c = (if 0x41 \<le> c \<and> c \<le> 0x5A then c + 0x20 else c)"

text \<open>Number-to-string conversion of a non-negative integer, as a template literal does it.\<close>

function digits :: "nat \<Rightarrow> jsstring" where
  "digits n =
     (if n < 10 then [0x30 + of_nat n]
      else digits (n div 10) @ [0x30 + of_nat (n mod 10)])"
  by pat_completeness auto
termination
  by (relation "measure id") auto

declare digits.simps [simp del]

definition numberToString :: "nat \<Rightarrow> jsstring" where
  "numberToString n = digits n"

section \<open>JSON.stringify on strings\<close>

definition hexDigit :: "int \<Rightarrow> 16 word" where
  "hexDigit n = (if n < 10 then 0x30 + of_int n else 0x61 + of_int (n - 10))"

definition unicodeEscape :: "16 word \<Rightarrow> jsstring" where
  "unicodeEscape c =
     [0x5C, 0x75] @ map hexDigit
       [uint c div 4096, uint c div 256 mod 16, uint c div 16 mod 16, uint c mod 16]"

definition isLeadSurrogate :: "16 word \<Rightarrow> bool" where
  "isLeadSurrogate c \<longleftrightarrow> 0xD800 \<le> c \<and> c \<le> 0xDBFF"

definition isTrailSurrogate :: "16 word \<Rightarrow> bool" where
  "isTrailSurrogate c \<longleftrightarrow> 0xDC00 \<le> c \<and> c \<le> 0xDFFF"

text \<open>One code unit that is not half of a surrogate pair; \<open>0x5C\<close> is the backslash and
  \<open>0x22\<close> the double quote.\<close>

definition quoteUnit :: "16 word \<Rightarrow> jsstring" where
  "quoteUnit c =
     (if c = 0x08 then 0x5C # str ''b''
      else if c = 0x09 then 0x5C # str ''t''
      else if c = 0x0A then 0x5C # str ''n''
      else if c = 0x0C then 0x5C # str ''f''
      else if c = 0x0D then 0x5C # str ''r''
      else if c = 0x22 then [0x5C, 0x22]
      else if c = 0x5C then [0x5C, 0x5C]
      else if c < 0x20 \<or> isLeadSurrogate c \<or> isTrailSurrogate c then unicodeEscape c
      else [c])"

fun quoteBody :: "jsstring \<Rightarrow> jsstring" where
  "quoteBody [] = []"
| "quoteBody [c] = quoteUnit c"
| "quoteBody (c # d # ds) =
     (if isLeadSurrogate c \<and> isTrailSurrogate d then c # d # quoteBody ds
      else quoteUnit c @ quoteBody (d # ds))"

definition quoteJSONString :: "jsstring \<Rightarrow> jsstring" where
  "quoteJSONString s = [0x22] @ quoteBody s @ [0x22]"

section \<open>Output Formatter\<close>

text \<open>
  \<open>formatOutput(text, format)\<close>. The JSON branch evaluates
  \<open>new Date().toISOString()\<close>: the string the clock gives at the call is the first
  argument \<open>now\<close> of the model.
\<close>

text \<open>\<open>JSON.stringify({ generatedAt: .., content: .. }, null, 2)\<close>.\<close>

definition stringifyEnvelope :: "jsstring \<Rightarrow> jsstring \<Rightarrow> jsstring" where
  "stringifyEnvelope generatedAt content =
     str ''{'' @ [0x0A] @ str ''  '' @ quoteJSONString (str ''generatedAt'') @ str '': ''
       @ quoteJSONString generatedAt @ str '','' @ [0x0A]
       @ str ''  '' @ quoteJSONString (str ''content'') @ str '': ''
       @ quoteJSONString content @ [0x0A] @ str ''}''"

definition wrapLine :: "jsstring \<Rightarrow> jsstring" where
  "wrapLine l = (if trim l \<noteq> [] then str ''<p>'' @ l @ str ''</p>'' else [])"

definition formatOutput :: "jsstring \<Rightarrow> jsstring \<Rightarrow> jsstring \<Rightarrow> jsstring" where
  "formatOutput now text format =
     (if format = str ''JSON'' then stringifyEnvelope now text
      else if format = str ''PDF'' \<or> format = str ''EPUB'' then text
      else if format = str ''HTML'' then
        str ''<div class=\"converted-content\">'' @ [0x0A]
          @ join [] (map wrapLine (split 0x0A text))
          @ [0x0A] @ str ''</div>''
      else text)"

section \<open>Binary File Generator\<close>

subsection \<open>EPUB packaging\<close>

text \<open>
  The JSZip object under construction is the list of the files added with
  \<open>zip.file(name, data, options)\<close>, in the order of their first addition, which is the
  order \<open>generateAsync\<close> writes them in. Adding a name that is present replaces the file
  in place.
\<close>

datatype compression = STORE | DEFLATE

record zip_entry =
  entryName :: jsstring
  entryData :: jsstring
  entryCompression :: "compression option"

type_synonym zip = "zip_entry list"

definition zip_file :: "jsstring \<Rightarrow> jsstring \<Rightarrow> compression option \<Rightarrow> zip \<Rightarrow> zip" where
  "zip_file n d c z =
     (let e = \<lparr>entryName = n, entryData = d, entryCompression = c\<rparr>
      in if n \<in> set (map entryName z)
         then map (\<lambda>old. if entryName old = n then e else old) z
         else z @ [e])"

abbreviation nl :: jsstring where
  "nl \<equiv> [0x0A]"

definition containerXml :: jsstring where
  "containerXml =
     str ''<?xml version=\"1.0\"?>''
       @ nl @ str ''<container version=\"1.0\" xmlns=\"urn:oasis:names:tc:opendocument:xmlns:container\">''
       @ nl @ str ''   <rootfiles>''
       @ nl @ str ''      <rootfile full-path=\"OEBPS/content.opf\" media-type=\"application/oebps-package+xml\"/>''
       @ nl @ str ''   </rootfiles>''
       @ nl @ str ''</container>''"

text \<open>The four global substitutions of \<open>cleanContent\<close>, in the order of the chain.\<close>

definition cleanContent :: "jsstring \<Rightarrow> jsstring" where
  "cleanContent content =
     replaceAll 0x0A (str ''<br/>'')
       (replaceAll 0x3E (str ''&gt;'')
         (replaceAll 0x3C (str ''&lt;'')
           (replaceAll 0x26 (str ''&amp;'') content)))"

definition contentXhtml :: "jsstring \<Rightarrow> jsstring \<Rightarrow> jsstring" where
  "contentXhtml title cleaned =
     str ''<?xml version=\"1.0\" encoding=\"UTF-8\" standalone=\"no\"?>''
       @ nl @ str ''<!DOCTYPE html>''
       @ nl @ str ''<html xmlns=\"http://www.w3.org/1999/xhtml\">''
       @ nl @ str ''<head><title>'' @ title @ str ''</title></head>''
       @ nl @ str ''<body>''
       @ nl @ str ''<h1>'' @ title @ str ''</h1>''
       @ nl @ str ''<div style=\"white-space: pre-wrap;\">'' @ cleaned @ str ''</div>''
       @ nl @ str ''</body>''
       @ nl @ str ''</html>''"

text \<open>\<open>now\<close> is the value of \<open>Date.now()\<close> where the template is evaluated.\<close>

definition opfContent :: "nat \<Rightarrow> jsstring \<Rightarrow> jsstring" where
  "opfContent now title =
     str ''<?xml version=\"1.0\" encoding=\"UTF-8\"?>''
       @ nl @ str ''<package xmlns=\"http://www.idpf.org/2007/opf\" unique-identifier=\"BookId\" version=\"2.0\">''
       @ nl @ str ''    <metadata xmlns:dc=\"http://purl.org/dc/elements/1.1/\">''
       @ nl @ str ''        <dc:title>'' @ title @ str ''</dc:title>''
       @ nl @ str ''        <dc:language>en</dc:language>''
       @ nl @ str ''        <dc:identifier id=\"BookId\">urn:uuid:'' @ numberToString now @ str ''</dc:identifier>''
       @ nl @ str ''    </metadata>''
       @ nl @ str ''    <manifest>''
       @ nl @ str ''        <item id=\"ncx\" href=\"toc.ncx\" media-type=\"application/x-dtbncx+xml\"/>''
       @ nl @ str ''        <item id=\"content\" href=\"content.xhtml\" media-type=\"application/xhtml+xml\"/>''
       @ nl @ str ''    </manifest>''
       @ nl @ str ''    <spine toc=\"ncx\">''
       @ nl @ str ''        <itemref idref=\"content\"/>''
       @ nl @ str ''    </spine>''
       @ nl @ str ''</package>''"

definition tocNcx :: "nat \<Rightarrow> jsstring \<Rightarrow> jsstring" where
  "tocNcx now title =
     str ''<?xml version=\"1.0\" encoding=\"UTF-8\"?>''
       @ nl @ str ''<ncx xmlns=\"http://www.daisy.org/z3986/2005/ncx/\" version=\"2005-1\">''
       @ nl @ str ''    <head><meta name=\"dtb:uid\" content=\"urn:uuid:'' @ numberToString now @ str ''\"/></head>''
       @ nl @ str ''    <docTitle><text>'' @ title @ str ''</text></docTitle>''
       @ nl @ str ''    <navMap>''
       @ nl @ str ''        <navPoint id=\"navPoint-1\" playOrder=\"1\">''
       @ nl @ str ''            <navLabel><text>Start</text></navLabel>''
       @ nl @ str ''            <content src=\"content.xhtml\"/>''
       @ nl @ str ''        </navPoint>''
       @ nl @ str ''    </navMap>''
       @ nl @ str ''</ncx>''"

text \<open>
  \<open>createEPUB(title, content)\<close>; \<open>now1\<close> and \<open>now2\<close> are the two readings of
  \<open>Date.now()\<close>, for the package document and for the navigation document. The result
  is the archive \<open>generateAsync\<close> serialises.
\<close>

definition createEPUB :: "nat \<Rightarrow> nat \<Rightarrow> jsstring \<Rightarrow> jsstring \<Rightarrow> zip" where
  "createEPUB now1 now2 title content =
     (let zip0 = zip_file (str ''mimetype'') (str ''application/epub+zip'') (Some STORE) [];
          zip1 = zip_file (str ''META-INF/container.xml'') containerXml None zip0;
          zip2 = zip_file (str ''OEBPS/content.xhtml'')
                   (contentXhtml title (cleanContent content)) None zip1;
          zip3 = zip_file (str ''OEBPS/content.opf'') (opfContent now1 title) None zip2;
          zip4 = zip_file (str ''OEBPS/toc.ncx'') (tocNcx now2 title) None zip3
      in zip4)"

subsection \<open>PDF pagination\<close>

text \<open>
  The jsPDF document is the list of its pages, the last one being the current page; a
  page is the list of its \<open>doc.text\<close> calls in order. Coordinates are JavaScript
  numbers: the vertical cursor only takes the integer values the loop gives it, the page
  size is whatever the library reports and is a rational parameter.
\<close>

record drawn =
  drawnText :: jsstring
  drawnX :: rat
  drawnY :: rat
  drawnFontSize :: nat

type_synonym pdf_doc = "drawn list list"

definition doc_text :: "jsstring \<Rightarrow> rat \<Rightarrow> rat \<Rightarrow> nat \<Rightarrow> pdf_doc \<Rightarrow> pdf_doc" where
  "doc_text t x y fs doc =
     butlast doc @ [last doc @ [\<lparr>drawnText = t, drawnX = x, drawnY = y, drawnFontSize = fs\<rparr>]]"

definition addPage :: "pdf_doc \<Rightarrow> pdf_doc" where
  "addPage doc = doc @ [[]]"

text \<open>What \<open>new jsPDF()\<close> provides besides drawing: the page size and the line wrapping
  of \<open>splitTextToSize\<close> at the current font.\<close>

record jspdf =
  pageWidth :: rat
  pageHeight :: rat
  splitTextToSize :: "jsstring \<Rightarrow> rat \<Rightarrow> jsstring list"

text \<open>The \<open>for\<close> loop over \<open>splitText\<close>, with \<open>margin = 15\<close>.\<close>

fun layoutLines :: "rat \<Rightarrow> jsstring list \<Rightarrow> int \<Rightarrow> pdf_doc \<Rightarrow> pdf_doc" where
  "layoutLines pageH [] cursorY doc = doc"
| "layoutLines pageH (l # ls) cursorY doc =
     (let (doc1, y1) = (if of_int cursorY > pageH - 15 then (addPage doc, 20)
                        else (doc, cursorY))
      in layoutLines pageH ls (y1 + 6) (doc_text l 15 (of_int y1) 11 doc1))"

definition generatePDF :: "jspdf \<Rightarrow> jsstring \<Rightarrow> jsstring \<Rightarrow> pdf_doc" where
  "generatePDF J safeTitle content =
     (let margin = 15;
          maxLineWidth = pageWidth J - margin * 2;
          doc0 = doc_text safeTitle margin 20 16 [[]];
          splitText = splitTextToSize J content maxLineWidth
      in layoutLines (pageHeight J) splitText 30 doc0)"

subsection \<open>generateFile\<close>

text \<open>\<open>title.replace(/\.[^/.]+$/, "")\<close>: the only possible match starts at the last dot,
  when a non-empty run without dot and slash follows it up to the end.\<close>

definition removeExtension :: "jsstring \<Rightarrow> jsstring" where
  "removeExtension title =
     (let r = rev title;
          ext = takeWhile (\<lambda>c. c \<noteq> 0x2E \<and> c \<noteq> 0x2F) r;
          rest = dropWhile (\<lambda>c. c \<noteq> 0x2E \<and> c \<noteq> 0x2F) r
      in if ext \<noteq> [] \<and> rest \<noteq> [] \<and> hd rest = 0x2E then rev (tl rest) else title)"

datatype blob = PdfBlob pdf_doc | ZipBlob zip | TextBlob jsstring jsstring

record generated =
  blob :: blob
  extension :: jsstring

definition generateFile ::
  "jspdf \<Rightarrow> nat \<Rightarrow> nat \<Rightarrow> jsstring \<Rightarrow> jsstring \<Rightarrow> jsstring \<Rightarrow> generated" where
  "generateFile J now1 now2 content format title =
     (let safeTitle = removeExtension title
      in if format = str ''PDF'' then
           \<lparr>blob = PdfBlob (generatePDF J safeTitle content), extension = str ''pdf''\<rparr>
         else if format = str ''EPUB'' then
           \<lparr>blob = ZipBlob (createEPUB now1 now2 safeTitle content), extension = str ''epub''\<rparr>
         else
           (let (extension1, mime1) =
                  (if format = str ''JSON'' then (str ''json'', str ''application/json'')
                   else (str ''txt'', str ''text/plain''));
                (extension2, mime2) =
                  (if format = str ''HTML'' then (str ''html'', str ''text/html'')
                   else (extension1, mime1));
                (extension3, mime3) =
                  (if format = str ''Markdown'' then (str ''md'', str ''text/markdown'')
                   else (extension2, mime2))
            in \<lparr>blob = TextBlob content mime3, extension = extension3\<rparr>))"

section \<open>Input parsers\<close>

text \<open>
  A rejected promise is \<open>Inl\<close> of the thrown value, which can be any JavaScript
  value. What a handler can observe of it is its \<open>message\<close> property:
  \<^item> \<open>Unreadable e\<close>: reading the property raises \<open>e\<close>; the value is \<open>null\<close> or
    \<open>undefined\<close>, with \<open>e\<close> the \<open>TypeError\<close> of the engine, or an object whose
    accessor raises \<open>e\<close>;
  \<^item> \<open>NoMessage\<close>: the property is \<open>undefined\<close> or another falsy value that is not
    a string (\<open>null\<close>, \<open>false\<close>, \<open>0\<close>, \<open>NaN\<close>);
  \<^item> \<open>StringMessage m\<close>: the property is the string \<open>m\<close>, as for an \<open>Error\<close>;
  \<^item> \<open>OtherMessage r\<close>: the property is a truthy value that is not a string, and
    \<open>r\<close> is the outcome of its conversion to a string: the string, or the value the
    conversion raises.
\<close>

datatype thrown =
    Unreadable thrown
  | NoMessage
  | StringMessage jsstring
  | OtherMessage "thrown + jsstring"

type_synonym bytes = "8 word list"

subsection \<open>PDF\<close>

text \<open>
  The document PDF.js loads: its page count and, for a page index, the outcome of
  \<open>getPage\<close> and \<open>getTextContent\<close>, which is the \<open>str\<close> of each text item in
  the order of the content stream, or the rejection of either call.
\<close>

record pdf_document =
  numPages :: nat
  pageItems :: "nat \<Rightarrow> thrown + jsstring list"

function pdfLoop :: "pdf_document \<Rightarrow> nat \<Rightarrow> jsstring \<Rightarrow> thrown + jsstring" where
  "pdfLoop pdf i fullText =
     (if i \<le> numPages pdf then
        (case pageItems pdf i of
           Inl e \<Rightarrow> Inl e
         | Inr items \<Rightarrow> pdfLoop pdf (Suc i) (fullText @ nl @ nl @ join (str '' '') items))
      else Inr fullText)"
  by pat_completeness auto
termination
  by (relation "measure (\<lambda>(pdf, i, fullText). Suc (numPages pdf) - i)") auto

declare pdfLoop.simps [simp del]

text \<open>\<open>getDocument\<close> is \<open>None\<close> when the resolved library object has no such member.\<close>

definition processPDF ::
  "(bytes \<Rightarrow> thrown + pdf_document) option \<Rightarrow> bytes \<Rightarrow> thrown + jsstring" where
  "processPDF getDocument data =
     (case getDocument of
        None \<Rightarrow> Inl (StringMessage (str ''PDF.js library not correctly initialized.''))
      | Some load \<Rightarrow>
          (case load data of
             Inl e \<Rightarrow> Inl e
           | Inr pdf \<Rightarrow> pdfLoop pdf 1 []))"

subsection \<open>EPUB\<close>

text \<open>
  An entry of \<open>loadedZip.files\<close>: its key and the outcome of \<open>async('string')\<close> on it.
\<close>

record zip_object =
  zipName :: jsstring
  zipString :: "thrown + jsstring"

record html_file =
  htmlName :: jsstring
  htmlContent :: jsstring

text \<open>
  \<open>filename.match(/\.(xhtml|html|htm)$/i)\<close>: without the \<open>u\<close> flag, ignoring case
  identifies the code units of the pattern with their ASCII capitals only.
\<close>

definition matchesSuffix :: "jsstring \<Rightarrow> bool" where
  "matchesSuffix filename =
     (let lower = map toLowerASCII filename
      in endsWith lower (str ''.xhtml'') \<or> endsWith lower (str ''.html'')
         \<or> endsWith lower (str ''.htm''))"

definition isContentDocument :: "jsstring \<Rightarrow> bool" where
  "isContentDocument filename \<longleftrightarrow>
     matchesSuffix filename \<and> \<not> startsWith filename (str ''__'')
     \<and> \<not> includes_js filename (str ''nav'') \<and> \<not> includes_js filename (str ''toc'')"

text \<open>
  The reads joined by \<open>Promise.all\<close>, listed in their order of completion: each
  success pushes onto \<open>htmlFiles\<close>, the first rejection rejects the whole.
\<close>

fun readAll :: "zip_object list \<Rightarrow> thrown + html_file list" where
  "readAll [] = Inr []"
| "readAll (f # fs) =
     (case zipString f of
        Inl e \<Rightarrow> Inl e
      | Inr s \<Rightarrow>
          (case readAll fs of
             Inl e \<Rightarrow> Inl e
           | Inr hs \<Rightarrow> Inr (\<lparr>htmlName = zipName f, htmlContent = s\<rparr> # hs)))"

text \<open>
  \<open>Array.prototype.sort\<close> with a comparison function. The sort is stable; for a
  consistent comparison function its result is the one of this insertion sort.
\<close>

fun insertSorted :: "('a \<Rightarrow> 'a \<Rightarrow> int) \<Rightarrow> 'a \<Rightarrow> 'a list \<Rightarrow> 'a list" where
  "insertSorted cmp a [] = [a]"
| "insertSorted cmp a (b # bs) =
     (if cmp a b < 0 then a # b # bs else b # insertSorted cmp a bs)"

definition sortWith :: "('a \<Rightarrow> 'a \<Rightarrow> int) \<Rightarrow> 'a list \<Rightarrow> 'a list" where
  "sortWith cmp xs = foldl (\<lambda>sorted a. insertSorted cmp a sorted) [] xs"

text \<open>The loop over the sorted files; \<open>td\<close> parses a file as HTML and converts the inner
  markup of its body with Turndown.\<close>

fun appendDocs ::
  "(jsstring \<Rightarrow> thrown + jsstring) \<Rightarrow> jsstring \<Rightarrow> html_file list \<Rightarrow> thrown + jsstring" where
  "appendDocs td combinedText [] = Inr combinedText"
| "appendDocs td combinedText (f # fs) =
     (case td (htmlContent f) of
        Inl e \<Rightarrow> Inl e
      | Inr md \<Rightarrow> appendDocs td (combinedText @ nl @ nl @ md) fs)"

section \<open>Conversion Orchestrator\<close>

text \<open>
  What the browser and the libraries contribute to a conversion:
  \<^item> \<open>atob\<close>, which throws on text that is not base64;
  \<^item> \<open>getDocument\<close> of PDF.js;
  \<open>loadAsync\<close> of JSZip, giving the entries in the order of \<open>Object.keys\<close>;
  \<^item> \<open>completionOrder\<close>, the order in which the reads started for a list of entries
    complete;
  \<^item> \<open>localeCompare\<close>, the collation of the host;
  \<^item> \<open>turndown\<close>, for \<open>turndownService.turndown(doc.body.innerHTML)\<close> of the parsed
    file;
  \<^item> \<open>decodeUTF8\<close>, for \<open>new TextDecoder('utf-8').decode\<close>, which does not throw;
  \<^item> \<open>isoNow\<close>, for \<open>new Date().toISOString()\<close>.
\<close>

record platform =
  atob :: "jsstring \<Rightarrow> thrown + jsstring"
  getDocument :: "(bytes \<Rightarrow> thrown + pdf_document) option"
  loadAsync :: "bytes \<Rightarrow> thrown + zip_object list"
  completionOrder :: "zip_object list \<Rightarrow> zip_object list"
  localeCompare :: "jsstring \<Rightarrow> jsstring \<Rightarrow> int"
  turndown :: "jsstring \<Rightarrow> thrown + jsstring"
  decodeUTF8 :: "bytes \<Rightarrow> jsstring"
  isoNow :: jsstring

definition noContentMessage :: jsstring where
  "noContentMessage = str ''Error: No text content extracted from EPUB.''"

definition processEPUB :: "platform \<Rightarrow> bytes \<Rightarrow> jsstring \<Rightarrow> thrown + jsstring" where
  "processEPUB P data targetFormat =
     (case loadAsync P data of
        Inl e \<Rightarrow> Inl e
      | Inr files \<Rightarrow>
          (case readAll (completionOrder P (filter (\<lambda>f. isContentDocument (zipName f)) files)) of
             Inl e \<Rightarrow> Inl e
           | Inr htmlFiles \<Rightarrow>
               (case appendDocs (turndown P) []
                       (sortWith (\<lambda>a b. localeCompare P (htmlName a) (htmlName b)) htmlFiles) of
                  Inl e \<Rightarrow> Inl e
                | Inr combinedText \<Rightarrow>
                    Inr (if combinedText \<noteq> [] then combinedText else noContentMessage))))"

record file_data =
  base64 :: jsstring
  fileType :: jsstring
  fileName :: jsstring

text \<open>
  The \<open>catch\<close> block: the template literal reads \<open>err.message\<close>, replaces a falsy
  value by \<open>'Unknown error'\<close> and converts the result to a string. An exception of the
  block itself rejects the promise of \<open>convert\<close>.
\<close>

definition catchHandler :: "thrown \<Rightarrow> thrown + jsstring" where
  "catchHandler err =
     (case err of
        Unreadable e \<Rightarrow> Inl e
      | NoMessage \<Rightarrow> Inr (str ''PROCESSING ERROR: '' @ str ''Unknown error'')
      | StringMessage m \<Rightarrow>
          Inr (str ''PROCESSING ERROR: '' @ (if m \<noteq> [] then m else str ''Unknown error''))
      | OtherMessage r \<Rightarrow>
          (case r of
             Inl e \<Rightarrow> Inl e
           | Inr s \<Rightarrow> Inr (str ''PROCESSING ERROR: '' @ s)))"

text \<open>
  \<open>convert(fileData, targetFormat)\<close>. The decoding of the base64 text precedes the
  \<open>try\<close> block. \<open>name.toLowerCase().endsWith('.epub')\<close> is decided by the ASCII
  letters of the name, no other code unit having an ASCII lower case among those of the
  suffix.
\<close>

definition extractText :: "platform \<Rightarrow> file_data \<Rightarrow> bytes \<Rightarrow> jsstring \<Rightarrow> thrown + jsstring" where
  "extractText P fileData data targetFormat =
     (if fileType fileData = str ''application/pdf'' then processPDF (getDocument P) data
      else if includes_js (fileType fileData) (str ''epub'')
              \<or> endsWith (map toLowerASCII (fileName fileData)) (str ''.epub'')
           then processEPUB P data targetFormat
      else Inr (decodeUTF8 P data))"

definition convert :: "platform \<Rightarrow> file_data \<Rightarrow> jsstring \<Rightarrow> thrown + jsstring" where
  "convert P fileData targetFormat =
     (case atob P (base64 fileData) of
        Inl e \<Rightarrow> Inl e
      | Inr binaryString \<Rightarrow>
          (case extractText P fileData (map ucast binaryString) targetFormat of
             Inr content \<Rightarrow> Inr (formatOutput (isoNow P) content targetFormat)
           | Inl err \<Rightarrow> catchHandler err))"

section \<open>Reference notions for the verification\<close>

text \<open>The character-wise XML escaping that \<open>cleanContent\<close> is compared with.\<close>

definition escapeUnit :: "16 word \<Rightarrow> jsstring" where
  "escapeUnit c =
     (if c = 0x26 then str ''&amp;''
      else if c = 0x3C then str ''&lt;''
      else if c = 0x3E then str ''&gt;''
      else if c = 0x0A then str ''<br/>''
      else [c])"

text \<open>The file of an archive under a name, if there is one.\<close>

definition entryNamed :: "zip \<Rightarrow> jsstring \<Rightarrow> zip_entry option" where
  "entryNamed z n = find (\<lambda>e. entryName e = n) z"

text \<open>The code units an ISO-8601 timestamp of \<open>toISOString\<close> is made of.\<close>

definition isoUnit :: "16 word \<Rightarrow> bool" where
  "isoUnit c \<longleftrightarrow> (0x30 \<le> c \<and> c \<le> 0x39) \<or> c \<in> set (str ''-:.TZ+'')"

text \<open>The number of occurrences of the double newline in a text, counted from the left
  without overlap, as \<open>s.split("\n\n").length - 1\<close> counts them.\<close>

fun countSeparators :: "jsstring \<Rightarrow> nat" where
  "countSeparators (a # b # cs) =
     (if a = 0x0A \<and> b = 0x0A then Suc (countSeparators cs) else countSeparators (b # cs))"
| "countSeparators [a] = 0"
| "countSeparators [] = 0"

subsection \<open>Orders on file names\<close>

text \<open>
  The ordinal order of JavaScript strings (the one of \<open><\<close> on strings) is the
  lexicographic order of their code units, which is the order of lists here.
\<close>

definition ordinalCompare :: "jsstring \<Rightarrow> jsstring \<Rightarrow> int" where
  "ordinalCompare a b = (if a < b then - 1 else if b < a then 1 else 0)"

text \<open>
  The order of the Unicode root collation on names made of ASCII letters, digits and
  full stops: the names are compared without regard to case first, and case, lower
  before upper, only breaks a tie. On such names this is the result of
  \<open>localeCompare\<close> in the browsers for English and most locales; elsewhere the
  definition stands for a collation, not for a particular one.
\<close>

definition rootCollation :: "jsstring \<Rightarrow> jsstring \<Rightarrow> int" where
  "rootCollation a b =
     (let la = map toLowerASCII a; lb = map toLowerASCII b
      in if la < lb then - 1 else if lb < la then 1
         else if a = b then 0 else if b < a then - 1 else 1)"

subsection \<open>A concrete platform\<close>

text \<open>\<open>atob\<close>: the forgiving base64 decoding of the HTML standard.\<close>

definition base64Value :: "16 word \<Rightarrow> int option" where
  "base64Value c =
     (if 0x41 \<le> c \<and> c \<le> 0x5A then Some (uint c - 65)
      else if 0x61 \<le> c \<and> c \<le> 0x7A then Some (uint c - 71)
      else if 0x30 \<le> c \<and> c \<le> 0x39 then Some (uint c + 4)
      else if c = 0x2B then Some 62
      else if c = 0x2F then Some 63
      else None)"

fun decodeSextets :: "int list \<Rightarrow> jsstring" where
  "decodeSextets (a # b # c # d # rest) =
     (let n = ((a * 64 + b) * 64 + c) * 64 + d
      in of_int (n div 65536) # of_int (n div 256 mod 256) # of_int (n mod 256)
           # decodeSextets rest)"
| "decodeSextets [a, b, c] =
     (let n = ((a * 64 + b) * 64 + c) div 4
      in [of_int (n div 256), of_int (n mod 256)])"
| "decodeSextets [a, b] = [of_int ((a * 64 + b) div 16)]"
| "decodeSextets [a] = []"
| "decodeSextets [] = []"

definition decodeBase64 :: "jsstring \<Rightarrow> thrown + jsstring" where
  "decodeBase64 encoded =
     (let d1 = filter (\<lambda>c. c \<notin> set [0x09, 0x0A, 0x0C, 0x0D, 0x20]) encoded;
          d2 = (if length d1 mod 4 = 0 then
                  (if endsWith d1 (str ''=='') then take (length d1 - 2) d1
                   else if endsWith d1 (str ''='') then take (length d1 - 1) d1
                   else d1)
                else d1);
          vals = map base64Value d2
      in if length d2 mod 4 = 1 \<or> None \<in> set vals
         then Inl (StringMessage (str ''The string to be decoded is not correctly encoded.''))
         else Inr (decodeSextets (map the vals)))"

text \<open>A two-page PDF whose second page has no text.\<close>

definition examplePageItems :: "nat \<Rightarrow> thrown + jsstring list" where
  "examplePageItems i =
     (if i = 1 then Inr [str ''Hello'', str ''world'']
      else if i = 2 then Inr []
      else Inl (StringMessage (str ''Invalid page request.'')))"

definition examplePdf :: pdf_document where
  "examplePdf = \<lparr>numPages = 2, pageItems = examplePageItems\<rparr>"

definition exampleGetDocument :: "bytes \<Rightarrow> thrown + pdf_document" where
  "exampleGetDocument data = Inr examplePdf"

text \<open>
  An archive whose three content documents are stored in an order that is neither
  the ordinal order nor the collation order of their names; each holds plain text
  without markup.
\<close>

definition exampleFiles :: "zip_object list" where
  "exampleFiles =
     [\<lparr>zipName = str ''mimetype'', zipString = Inr (str ''application/epub+zip'')\<rparr>,
      \<lparr>zipName = str ''b.html'', zipString = Inr (str ''second'')\<rparr>,
      \<lparr>zipName = str ''Z.html'', zipString = Inr (str ''third'')\<rparr>,
      \<lparr>zipName = str ''toc.html'', zipString = Inr (str ''contents'')\<rparr>,
      \<lparr>zipName = str ''a.html'', zipString = Inr (str ''first'')\<rparr>]"

definition exampleLoadAsync :: "bytes \<Rightarrow> thrown + zip_object list" where
  "exampleLoadAsync data = Inr exampleFiles"

text \<open>An archive without content document.\<close>

definition bareFiles :: "zip_object list" where
  "bareFiles =
     [\<lparr>zipName = str ''mimetype'', zipString = Inr (str ''application/epub+zip'')\<rparr>,
      \<lparr>zipName = str ''OEBPS/nav.xhtml'', zipString = Inr (str ''contents'')\<rparr>,
      \<lparr>zipName = str ''__MACOSX/page.html'', zipString = Inr (str ''page'')\<rparr>,
      \<lparr>zipName = str ''cover.png'', zipString = Inr []\<rparr>]"

definition bareLoadAsync :: "bytes \<Rightarrow> thrown + zip_object list" where
  "bareLoadAsync data = Inr bareFiles"

text \<open>Reads that complete in the order they were started.\<close>

definition inOrder :: "zip_object list \<Rightarrow> zip_object list" where
  "inOrder started = started"

text \<open>Turndown on text without markup and without Markdown syntax: the text itself.\<close>

definition plainTurndown :: "jsstring \<Rightarrow> thrown + jsstring" where
  "plainTurndown html = Inr html"

text \<open>\<open>TextDecoder\<close> on bytes below \<open>0x80\<close>; on other bytes the decoder of the browser
  differs.\<close>

definition decodeASCII :: "bytes \<Rightarrow> jsstring" where
  "decodeASCII data = map ucast data"

definition examplePlatform :: platform where
  "examplePlatform =
     \<lparr>atob = decodeBase64, getDocument = Some exampleGetDocument,
      loadAsync = exampleLoadAsync, completionOrder = inOrder,
      localeCompare = rootCollation, turndown = plainTurndown,
      decodeUTF8 = decodeASCII, isoNow = str ''2024-01-01T00:00:00.000Z''\<rparr>"

text \<open>
  A PDF.js whose loading task rejects with an error of empty message, one that
  rejects with a message, one that rejects with \<open>null\<close>, and one that rejects with an
  object whose message is the number 42.
\<close>

definition silentGetDocument :: "bytes \<Rightarrow> thrown + pdf_document" where
  "silentGetDocument data = Inl (StringMessage [])"

definition invalidGetDocument :: "bytes \<Rightarrow> thrown + pdf_document" where
  "invalidGetDocument data = Inl (StringMessage (str ''Invalid PDF structure.''))"

definition nullGetDocument :: "bytes \<Rightarrow> thrown + pdf_document" where
  "nullGetDocument data
     = Inl (Unreadable (StringMessage (str ''Cannot read properties of null'')))"

definition numericGetDocument :: "bytes \<Rightarrow> thrown + pdf_document" where
  "numericGetDocument data = Inl (OtherMessage (Inr (str ''42'')))"

definition pdfFile :: file_data where
  "pdfFile = \<lparr>base64 = str ''JVBERi0='', fileType = str ''application/pdf'',
               fileName = str ''paper.pdf''\<rparr>"

definition barePlatform :: platform where
  "barePlatform = examplePlatform\<lparr>loadAsync := bareLoadAsync\<rparr>"

definition silentPlatform :: platform where
  "silentPlatform = examplePlatform\<lparr>getDocument := Some silentGetDocument\<rparr>"

definition invalidPlatform :: platform where
  "invalidPlatform = examplePlatform\<lparr>getDocument := Some invalidGetDocument\<rparr>"

definition nullPlatform :: platform where
  "nullPlatform = examplePlatform\<lparr>getDocument := Some nullGetDocument\<rparr>"

definition numericPlatform :: platform where
  "numericPlatform = examplePlatform\<lparr>getDocument := Some numericGetDocument\<rparr>"

text \<open>The content documents of the example archive, in the collation order of their
  names.\<close>

definition exampleDocs :: "html_file list" where
  "exampleDocs =
     [\<lparr>htmlName = str ''a.html'', htmlContent = str ''first''\<rparr>,
      \<lparr>htmlName = str ''b.html'', htmlContent = str ''second''\<rparr>,
      \<lparr>htmlName = str ''Z.html'', htmlContent = str ''third''\<rparr>]"

definition exampleSource :: "zip_object \<Rightarrow> jsstring" where
  "exampleSource f = (case zipString f of Inr s \<Rightarrow> s | Inl e \<Rightarrow> [])"

definition exampleItems :: "nat \<Rightarrow> jsstring list" where
  "exampleItems i = (if i = 1 then [str ''Hello'', str ''world''] else [])"

text \<open>A three-page PDF with a text item that holds a double newline.\<close>

definition newlinePageItems :: "nat \<Rightarrow> thrown + jsstring list" where
  "newlinePageItems i =
     (if i = 1 then Inr [str ''Title'']
      else if i = 2 then Inr [str ''first\<newline>\<newline>second'']
      else if i = 3 then Inr []
      else Inl (StringMessage (str ''Invalid page request.'')))"

definition newlinePdf :: pdf_document where
  "newlinePdf = \<lparr>numPages = 3, pageItems = newlinePageItems\<rparr>"

definition newlineGetDocument :: "bytes \<Rightarrow> thrown + pdf_document" where
  "newlineGetDocument data = Inr newlinePdf"

text \<open>The paths of the content documents of an archive.\<close>

definition contentPaths :: "zip_object list \<Rightarrow> jsstring list" where
  "contentPaths files = map zipName (filter (\<lambda>f. isContentDocument (zipName f)) files)"

subsection \<open>Pagination\<close>

text \<open>The \<open>doc.text\<close> calls of a document in order, each with the index of its page,
  counted from 0.\<close>

fun placementsFrom :: "nat \<Rightarrow> pdf_doc \<Rightarrow> (nat \<times> drawn) list" where
  "placementsFrom p [] = []"
| "placementsFrom p (page # rest) = map (Pair p) page @ placementsFrom (Suc p) rest"

definition placements :: "pdf_doc \<Rightarrow> (nat \<times> drawn) list" where
  "placements doc = placementsFrom 0 doc"

text \<open>
  The page break rule, line by line: the page and the vertical position of the line of
  index \<open>i\<close>, when the cursor stands at \<open>y\<close> on page \<open>p\<close> before line 0. A line
  whose cursor exceeds the bottom bound goes to the top offset 20 of the next page;
  the cursor of a line is 6 below the position of the line before.
\<close>

fun linePositionFrom :: "rat \<Rightarrow> nat \<Rightarrow> int \<Rightarrow> nat \<Rightarrow> nat \<times> int" where
  "linePositionFrom pageH p y 0 = (if of_int y > pageH - 15 then (Suc p, 20) else (p, y))"
| "linePositionFrom pageH p y (Suc i) =
     (let (q, z) = linePositionFrom pageH p y i
      in if of_int (z + 6) > pageH - 15 then (Suc q, 20) else (q, z + 6))"

definition linePosition :: "rat \<Rightarrow> nat \<Rightarrow> nat \<times> int" where
  "linePosition pageH i = linePositionFrom pageH 0 30 i"

text \<open>The \<open>doc.text\<close> call of the body line of index \<open>i\<close> of \<open>ls\<close>, with its page,
  under the page break rule.\<close>

definition bodyDraw :: "rat \<Rightarrow> nat \<Rightarrow> int \<Rightarrow> jsstring list \<Rightarrow> nat \<Rightarrow> nat \<times> drawn" where
  "bodyDraw pageH p y ls i =
     (fst (linePositionFrom pageH p y i),
      \<lparr>drawnText = ls ! i, drawnX = 15,
       drawnY = of_int (snd (linePositionFrom pageH p y i)), drawnFontSize = 11\<rparr>)"

text \<open>The number of lines that fit on the first page below the title: the positions
  30, 36, ... that do not exceed the bottom bound.\<close>

definition firstPageCapacity :: "rat \<Rightarrow> nat" where
  "firstPageCapacity pageH = (if pageH - 15 < 30 then 0 else nat \<lfloor>(pageH - 45) / 6\<rfloor> + 1)"

text \<open>
  The page size of \<open>new jsPDF()\<close>: A4, 595.28 by 841.89 points, in millimetres at
  72 / 25.4 points per millimetre, up to the rounding of the floating-point division.
  The wrapping stands for \<open>splitTextToSize\<close> on lines that are narrower than the
  content area: they are split at the newlines only.
\<close>

definition a4Width :: rat where
  "a4Width = 595.28 / (72 / 25.4)"

definition a4Height :: rat where
  "a4Height = 841.89 / (72 / 25.4)"

definition splitShortLines :: "jsstring \<Rightarrow> rat \<Rightarrow> jsstring list" where
  "splitShortLines content maxLineWidth = split 0x0A content"

definition a4Document :: jspdf where
  "a4Document = \<lparr>pageWidth = a4Width, pageHeight = a4Height, splitTextToSize = splitShortLines\<rparr>"

text \<open>A body of fifty short lines.\<close>

definition fiftyLines :: jsstring where
  "fiftyLines = join nl (replicate 50 (str ''line''))"

section \<open>Verification\<close>

subsection \<open>String primitives\<close>

lemma str_append: "str (a @ b) = str a @ str b"
  by (simp add: str_def)

lemma split_not_Nil: "split sep s \<noteq> []"
  by (induction s) (auto split: list.splits)

lemma join_split: "join [sep] (split sep s) = s"
proof (induction s)
  case Nil
  then show ?case by simp
next
  case (Cons c cs)
  obtain l ls where sp: "split sep cs = l # ls"
    using split_not_Nil [of sep cs] by (cases "split sep cs") auto
  show ?case
  proof (cases "c = sep")
    case True
    with Cons sp show ?thesis by simp
  next
    case False
    with Cons sp show ?thesis by (cases ls) auto
  qed
qed

lemma split_no_sep: "l \<in> set (split sep s) \<Longrightarrow> sep \<notin> set l"
proof (induction s arbitrary: l)
  case Nil
  then show ?case by simp
next
  case (Cons c cs)
  then show ?case by (auto split: if_splits list.splits)
qed

lemma dropWhile_all: "(\<forall>x\<in>set (dropWhile P xs). P x) \<longleftrightarrow> (\<forall>x\<in>set xs. P x)"
proof
  assume a: "\<forall>x\<in>set (dropWhile P xs). P x"
  have "dropWhile P xs = []"
  proof (rule ccontr)
    assume n: "dropWhile P xs \<noteq> []"
    then have "\<not> P (hd (dropWhile P xs))" by (rule hd_dropWhile)
    moreover from n have "hd (dropWhile P xs) \<in> set (dropWhile P xs)" by simp
    ultimately show False using a by blast
  qed
  then show "\<forall>x\<in>set xs. P x" by simp
next
  assume "\<forall>x\<in>set xs. P x"
  then show "\<forall>x\<in>set (dropWhile P xs). P x" by (meson set_dropWhileD)
qed

lemma trim_Nil_iff: "trim l = [] \<longleftrightarrow> list_all isWhiteSpace l"
  by (simp add: trim_def dropWhile_all list_all_iff)

lemma join_Nil_concat: "join [] xs = concat xs"
  by (induction "[] :: jsstring" xs rule: join.induct) simp_all

lemma concat_wrapLine:
  "concat (map wrapLine ls)
     = concat (map (\<lambda>l. str ''<p>'' @ l @ str ''</p>'')
         (filter (\<lambda>l. \<not> list_all isWhiteSpace l) ls))"
  by (induction ls) (simp_all add: wrapLine_def trim_Nil_iff)

lemma replaceAll_append:
  "replaceAll c r (xs @ ys) = replaceAll c r xs @ replaceAll c r ys"
  by (induction xs) simp_all

lemma sublist_mid: "ys = ps @ xs @ ss \<Longrightarrow> sublist xs ys"
  by (auto simp: sublist_def)

lemma sublist_appendL: "sublist xs ys \<Longrightarrow> sublist xs (zs @ ys)"
  by (auto simp: sublist_def) (metis append.assoc)

lemma sublist_here: "sublist xs (xs @ zs)"
  by (rule sublist_mid [where ps = "[]"]) simp

subsection \<open>Output Formatter\<close>

lemma formatOutput_HTML_unfold:
  "formatOutput now text (str ''HTML'')
     = str ''<div class=\"converted-content\">'' @ nl
       @ join [] (map wrapLine (split 0x0A text)) @ nl @ str ''</div>''"
  by (simp add: formatOutput_def str_def)

text \<open>
  Claim C8. With the HTML tag, \<open>formatOutput\<close> splits the text on the newline (the
  pieces contain no newline and give the text back when joined with it), keeps the
  lines that are not made of white space only, wraps each of them, untrimmed, in a
  paragraph element, concatenates the paragraphs without separator and wraps the whole
  in the container element; the text \<open>hello\<newline>world\<close> gives the expected document.
\<close>

theorem formatOutput_HTML:
  "formatOutput now text (str ''HTML'')
     = str ''<div class=\"converted-content\">'' @ nl
       @ concat (map (\<lambda>l. str ''<p>'' @ l @ str ''</p>'')
           (filter (\<lambda>l. \<not> list_all isWhiteSpace l) (split 0x0A text)))
       @ nl @ str ''</div>''
   \<and> join nl (split 0x0A text) = text
   \<and> list_all (\<lambda>l. 0x0A \<notin> set l) (split 0x0A text)
   \<and> formatOutput now (str ''hello\<newline>world'') (str ''HTML'')
     = str ''<div class=\"converted-content\">\<newline><p>hello</p><p>world</p>\<newline></div>''"
proof (intro conjI)
  show "formatOutput now text (str ''HTML'')
     = str ''<div class=\"converted-content\">'' @ nl
       @ concat (map (\<lambda>l. str ''<p>'' @ l @ str ''</p>'')
           (filter (\<lambda>l. \<not> list_all isWhiteSpace l) (split 0x0A text)))
       @ nl @ str ''</div>''"
    by (simp only: formatOutput_HTML_unfold join_Nil_concat concat_wrapLine)
  show "join nl (split 0x0A text) = text"
    by (rule join_split)
  show "list_all (\<lambda>l. 0x0A \<notin> set l) (split 0x0A text)"
    by (simp add: list_all_iff split_no_sep)
  show "formatOutput now (str ''hello\<newline>world'') (str ''HTML'')
     = str ''<div class=\"converted-content\">\<newline><p>hello</p><p>world</p>\<newline></div>''"
    unfolding formatOutput_HTML_unfold by code_simp
qed

text \<open>A text with a line of spaces between two lines: the blank line gives nothing, the
  other lines keep their spaces.\<close>

theorem formatOutput_HTML_witness:
  "formatOutput (str ''2024-01-01T00:00:00.000Z'') (str '' a \<newline>  \<newline>b'') (str ''HTML'')
     = str ''<div class=\"converted-content\">\<newline><p> a </p><p>b</p>\<newline></div>''"
proof -
  have "str ''<div class=\"converted-content\">'' @ nl
       @ concat (map (\<lambda>l. str ''<p>'' @ l @ str ''</p>'')
           (filter (\<lambda>l. \<not> list_all isWhiteSpace l) (split 0x0A (str '' a \<newline>  \<newline>b''))))
       @ nl @ str ''</div>''
     = str ''<div class=\"converted-content\">\<newline><p> a </p><p>b</p>\<newline></div>''"
    by code_simp
  with formatOutput_HTML [of "str ''2024-01-01T00:00:00.000Z''" "str '' a \<newline>  \<newline>b''"]
  show ?thesis by simp
qed

lemma digit_range:
  fixes c :: "16 word"
  shows "0x30 \<le> c \<Longrightarrow> c \<le> 0x39 \<Longrightarrow> 0x20 \<le> c \<and> c < 0x80 \<and> c \<noteq> 0x22 \<and> c \<noteq> 0x5C"
  by (auto simp: word_le_nat_alt word_less_nat_alt)

lemma isoUnit_cases:
  "isoUnit c \<Longrightarrow> (0x30 \<le> c \<and> c \<le> 0x39) \<or> c \<in> {0x2D, 0x3A, 0x2E, 0x54, 0x5A, 0x2B}"
  by (auto simp: isoUnit_def str_def)

lemma isoUnit_range: "isoUnit c \<Longrightarrow> 0x20 \<le> c \<and> c < 0x80 \<and> c \<noteq> 0x22 \<and> c \<noteq> 0x5C"
  using digit_range [of c] isoUnit_cases [of c] by auto

lemma plain_quoteUnit:
  fixes c :: "16 word"
  shows "0x20 \<le> c \<Longrightarrow> c < 0x80 \<Longrightarrow> c \<noteq> 0x22 \<Longrightarrow> c \<noteq> 0x5C \<Longrightarrow> quoteUnit c = [c]"
  unfolding quoteUnit_def isLeadSurrogate_def isTrailSurrogate_def
  by (auto simp: word_le_nat_alt word_less_nat_alt)

lemma plain_not_lead:
  fixes c :: "16 word"
  shows "c < 0x80 \<Longrightarrow> \<not> isLeadSurrogate c"
  unfolding isLeadSurrogate_def
  by (auto simp: word_le_nat_alt word_less_nat_alt)

lemma isoUnit_quoteUnit: "isoUnit c \<Longrightarrow> quoteUnit c = [c]"
  using isoUnit_range [of c] by (simp add: plain_quoteUnit)

lemma isoUnit_not_lead: "isoUnit c \<Longrightarrow> \<not> isLeadSurrogate c"
  using isoUnit_range [of c] by (simp add: plain_not_lead)

lemma quoteBody_plain:
  "list_all isoUnit s \<Longrightarrow> quoteBody s = s"
  by (induction s rule: quoteBody.induct) (simp_all add: isoUnit_quoteUnit isoUnit_not_lead)

lemma stringifyEnvelope_inj:
  assumes "quoteBody t1 = t1" and "quoteBody t2 = t2"
    and eq: "stringifyEnvelope t1 x = stringifyEnvelope t2 x"
  shows "t1 = t2"
proof -
  define A where "A = str ''{'' @ nl @ str ''  '' @ quoteJSONString (str ''generatedAt'') @ str '': ''"
  define B where "B = str '','' @ nl @ str ''  '' @ quoteJSONString (str ''content'') @ str '': ''
       @ quoteJSONString x @ nl @ str ''}''"
  have e: "stringifyEnvelope t x = A @ [0x22] @ quoteBody t @ ([0x22] @ B)" for t
    by (simp add: stringifyEnvelope_def quoteJSONString_def A_def B_def)
  from eq have "A @ [0x22] @ t1 @ ([0x22] @ B) = A @ [0x22] @ t2 @ ([0x22] @ B)"
    by (simp only: e assms(1,2))
  then show ?thesis
    by (simp only: same_append_eq append_same_eq)
qed

text \<open>
  Claim C1, as amended. For every tag other than JSON the output of \<open>formatOutput\<close>
  does not depend on the clock: two calls with identical arguments give identical
  strings. With the JSON tag the output embeds the time of the call: two calls with
  identical arguments, at times the clock renders as ISO timestamps, give identical
  strings exactly when the two timestamps are the same.
\<close>

theorem formatOutput_clock:
  "(tag \<noteq> str ''JSON'' \<longrightarrow> formatOutput t1 body tag = formatOutput t2 body tag)
   \<and> (list_all isoUnit t1 \<and> list_all isoUnit t2 \<longrightarrow>
        (formatOutput t1 body (str ''JSON'') = formatOutput t2 body (str ''JSON'') \<longleftrightarrow> t1 = t2))"
proof (intro conjI impI)
  assume "tag \<noteq> str ''JSON''"
  then show "formatOutput t1 body tag = formatOutput t2 body tag"
    by (simp add: formatOutput_def)
next
  assume "list_all isoUnit t1 \<and> list_all isoUnit t2"
  then have q: "quoteBody t1 = t1" "quoteBody t2 = t2"
    by (simp_all add: quoteBody_plain)
  have f: "formatOutput t body (str ''JSON'') = stringifyEnvelope t body" for t
    by (simp add: formatOutput_def)
  show "formatOutput t1 body (str ''JSON'') = formatOutput t2 body (str ''JSON'') \<longleftrightarrow> t1 = t2"
    unfolding f using stringifyEnvelope_inj [OF q] by blast
qed

text \<open>Two calls one millisecond apart, with the HTML tag and with the JSON tag.\<close>

theorem formatOutput_clock_witness:
  "str ''HTML'' \<noteq> str ''JSON''
   \<and> formatOutput (str ''2024-01-01T00:00:00.000Z'') (str ''hello'') (str ''HTML'')
       = formatOutput (str ''2024-01-01T00:00:00.001Z'') (str ''hello'') (str ''HTML'')
   \<and> list_all isoUnit (str ''2024-01-01T00:00:00.000Z'')
   \<and> list_all isoUnit (str ''2024-01-01T00:00:00.001Z'')
   \<and> (formatOutput (str ''2024-01-01T00:00:00.000Z'') (str ''hello'') (str ''JSON'')
          = formatOutput (str ''2024-01-01T00:00:00.001Z'') (str ''hello'') (str ''JSON'')
        \<longleftrightarrow> str ''2024-01-01T00:00:00.000Z'' = str ''2024-01-01T00:00:00.001Z'')"
proof -
  have h1: "str ''HTML'' \<noteq> str ''JSON''"
    by code_simp
  have h2: "list_all isoUnit (str ''2024-01-01T00:00:00.000Z'')"
    "list_all isoUnit (str ''2024-01-01T00:00:00.001Z'')"
    by code_simp code_simp
  from h1 h2
    formatOutput_clock [where tag = "str ''HTML''" and body = "str ''hello''"
      and ?t1.0 = "str ''2024-01-01T00:00:00.000Z''"
      and ?t2.0 = "str ''2024-01-01T00:00:00.001Z''"]
  show ?thesis by blast
qed

text \<open>
  Claim C1, as stated, fails: two calls with the same text and the JSON tag, one
  millisecond apart, give different strings.
\<close>

theorem formatOutput_JSON_clock_counterexample:
  "formatOutput (str ''2024-01-01T00:00:00.000Z'') (str ''hello'') (str ''JSON'')
     \<noteq> formatOutput (str ''2024-01-01T00:00:00.001Z'') (str ''hello'') (str ''JSON'')"
  by code_simp

subsection \<open>EPUB packaging\<close>

lemma cleanContent_Nil: "cleanContent [] = []"
  by (simp add: cleanContent_def)

lemma cleanContent_Cons: "cleanContent (x # xs) = escapeUnit x @ cleanContent xs"
  by (simp add: cleanContent_def escapeUnit_def replaceAll_append str_def)

lemma cleanContent_concat: "cleanContent content = concat (map escapeUnit content)"
  by (induction content) (simp_all add: cleanContent_Nil cleanContent_Cons)

text \<open>
  Claim C9. The chain of four global substitutions of \<open>createEPUB\<close> (ampersand, then
  less-than, then greater-than, then newline) equals the character-wise escaping, for
  every input; the less-than sign becomes \<open>&lt;\<close> and not \<open>&amp;lt;\<close>.
\<close>

theorem cleanContent_charwise:
  "cleanContent content = concat (map escapeUnit content)
   \<and> cleanContent (str ''<'') = str ''&lt;''
   \<and> cleanContent (str ''<'') \<noteq> str ''&amp;lt;''"
proof (intro conjI)
  show "cleanContent content = concat (map escapeUnit content)"
    by (rule cleanContent_concat)
  show "cleanContent (str ''<'') = str ''&lt;''"
    by code_simp
  show "cleanContent (str ''<'') \<noteq> str ''&amp;lt;''"
    by code_simp
qed

text \<open>A text with each of the four characters, and with an escape already in it.\<close>

theorem cleanContent_charwise_witness:
  "cleanContent (str ''a<b>&c\<newline>&lt;'') = str ''a&lt;b&gt;&amp;c<br/>&amp;lt;''"
proof -
  have "concat (map escapeUnit (str ''a<b>&c\<newline>&lt;'')) = str ''a&lt;b&gt;&amp;c<br/>&amp;lt;''"
    by code_simp
  with cleanContent_charwise [of "str ''a<b>&c\<newline>&lt;''"] show ?thesis by simp
qed

lemma createEPUB_entries:
  "createEPUB now1 now2 title content =
     [\<lparr>entryName = str ''mimetype'', entryData = str ''application/epub+zip'',
        entryCompression = Some STORE\<rparr>,
      \<lparr>entryName = str ''META-INF/container.xml'', entryData = containerXml,
        entryCompression = None\<rparr>,
      \<lparr>entryName = str ''OEBPS/content.xhtml'',
        entryData = contentXhtml title (cleanContent content), entryCompression = None\<rparr>,
      \<lparr>entryName = str ''OEBPS/content.opf'', entryData = opfContent now1 title,
        entryCompression = None\<rparr>,
      \<lparr>entryName = str ''OEBPS/toc.ncx'', entryData = tocNcx now2 title,
        entryCompression = None\<rparr>]"
  by (simp add: createEPUB_def zip_file_def Let_def str_def)

text \<open>
  Claim C7. For every title and content, the first file of the archive of
  \<open>createEPUB\<close> is named \<open>mimetype\<close>, is stored without compression and holds
  exactly \<open>application/epub+zip\<close>; the container descriptor, the content document, the
  package document and the navigation document follow it, in this order.
\<close>

theorem createEPUB_mimetype_first:
  "\<exists>rest. createEPUB now1 now2 title content =
      \<lparr>entryName = str ''mimetype'', entryData = str ''application/epub+zip'',
       entryCompression = Some STORE\<rparr> # rest
    \<and> map entryName rest =
        [str ''META-INF/container.xml'', str ''OEBPS/content.xhtml'',
         str ''OEBPS/content.opf'', str ''OEBPS/toc.ncx'']"
  by (simp add: createEPUB_entries)

lemma entryNamed_createEPUB:
  "entryNamed (createEPUB now1 now2 title content) (str ''OEBPS/content.xhtml'')
     = Some \<lparr>entryName = str ''OEBPS/content.xhtml'',
        entryData = contentXhtml title (cleanContent content), entryCompression = None\<rparr>"
  "entryNamed (createEPUB now1 now2 title content) (str ''OEBPS/content.opf'')
     = Some \<lparr>entryName = str ''OEBPS/content.opf'', entryData = opfContent now1 title,
        entryCompression = None\<rparr>"
  "entryNamed (createEPUB now1 now2 title content) (str ''OEBPS/toc.ncx'')
     = Some \<lparr>entryName = str ''OEBPS/toc.ncx'', entryData = tocNcx now2 title,
        entryCompression = None\<rparr>"
  by (simp_all add: createEPUB_entries entryNamed_def str_def)

lemma contentXhtml_split:
  "contentXhtml title c =
     (str ''<?xml version=\"1.0\" encoding=\"UTF-8\" standalone=\"no\"?>''
       @ nl @ str ''<!DOCTYPE html>''
       @ nl @ str ''<html xmlns=\"http://www.w3.org/1999/xhtml\">''
       @ nl @ str ''<head>'')
     @ (str ''<title>'' @ title @ str ''</title>'')
     @ (str ''</head>'' @ nl @ str ''<body>'' @ nl)
     @ (str ''<h1>'' @ title @ str ''</h1>'')
     @ nl
     @ (str ''<div style=\"white-space: pre-wrap;\">'' @ c @ str ''</div>'')
     @ (nl @ str ''</body>'' @ nl @ str ''</html>'')"
  by (simp add: contentXhtml_def str_def)

lemma contentXhtml_parts:
  "sublist (str ''<title>'' @ title @ str ''</title>'') (contentXhtml title c)"
  "sublist (str ''<h1>'' @ title @ str ''</h1>'') (contentXhtml title c)"
  "sublist (str ''<div style=\"white-space: pre-wrap;\">'' @ c @ str ''</div>'')
     (contentXhtml title c)"
  unfolding contentXhtml_split
  by (intro sublist_appendL sublist_here)+

lemma opfContent_split:
  "opfContent now title =
     (str ''<?xml version=\"1.0\" encoding=\"UTF-8\"?>''
       @ nl @ str ''<package xmlns=\"http://www.idpf.org/2007/opf\" unique-identifier=\"BookId\" version=\"2.0\">''
       @ nl @ str ''    <metadata xmlns:dc=\"http://purl.org/dc/elements/1.1/\">''
       @ nl @ str ''        '')
     @ (str ''<dc:title>'' @ title @ str ''</dc:title>'')
     @ (nl @ str ''        <dc:language>en</dc:language>''
       @ nl @ str ''        <dc:identifier id=\"BookId\">urn:uuid:'' @ numberToString now @ str ''</dc:identifier>''
       @ nl @ str ''    </metadata>''
       @ nl @ str ''    <manifest>''
       @ nl @ str ''        <item id=\"ncx\" href=\"toc.ncx\" media-type=\"application/x-dtbncx+xml\"/>''
       @ nl @ str ''        <item id=\"content\" href=\"content.xhtml\" media-type=\"application/xhtml+xml\"/>''
       @ nl @ str ''    </manifest>''
       @ nl @ str ''    <spine toc=\"ncx\">''
       @ nl @ str ''        <itemref idref=\"content\"/>''
       @ nl @ str ''    </spine>''
       @ nl @ str ''</package>'')"
  by (simp add: opfContent_def str_def)

lemma opfContent_parts:
  "sublist (str ''<dc:title>'' @ title @ str ''</dc:title>'') (opfContent now title)"
  unfolding opfContent_split
  by (intro sublist_appendL sublist_here)+

lemma tocNcx_split:
  "tocNcx now title =
     (str ''<?xml version=\"1.0\" encoding=\"UTF-8\"?>''
       @ nl @ str ''<ncx xmlns=\"http://www.daisy.org/z3986/2005/ncx/\" version=\"2005-1\">''
       @ nl @ str ''    <head><meta name=\"dtb:uid\" content=\"urn:uuid:'' @ numberToString now @ str ''\"/></head>''
       @ nl @ str ''    '')
     @ (str ''<docTitle><text>'' @ title @ str ''</text></docTitle>'')
     @ (nl @ str ''    <navMap>''
       @ nl @ str ''        <navPoint id=\"navPoint-1\" playOrder=\"1\">''
       @ nl @ str ''            <navLabel><text>Start</text></navLabel>''
       @ nl @ str ''            <content src=\"content.xhtml\"/>''
       @ nl @ str ''        </navPoint>''
       @ nl @ str ''    </navMap>''
       @ nl @ str ''</ncx>'')"
  by (simp add: tocNcx_def str_def)

lemma tocNcx_parts:
  "sublist (str ''<docTitle><text>'' @ title @ str ''</text></docTitle>'') (tocNcx now title)"
  unfolding tocNcx_split
  by (intro sublist_appendL sublist_here)+

text \<open>
  Claim C10. \<open>createEPUB\<close> escapes the body and not the title: for every title, the
  content document holds the title as it is between the tags of its \<open>title\<close> and
  \<open>h1\<close> elements, the package document holds it as it is in \<open>dc:title\<close> and the
  navigation document holds it as it is in \<open>docTitle\<close>, while the body appears in the
  content document in its escaped form.
\<close>

theorem createEPUB_title_verbatim:
  "\<exists>xhtml opf ncx.
      entryNamed (createEPUB now1 now2 title content) (str ''OEBPS/content.xhtml'') = Some xhtml
    \<and> entryNamed (createEPUB now1 now2 title content) (str ''OEBPS/content.opf'') = Some opf
    \<and> entryNamed (createEPUB now1 now2 title content) (str ''OEBPS/toc.ncx'') = Some ncx
    \<and> sublist (str ''<title>'' @ title @ str ''</title>'') (entryData xhtml)
    \<and> sublist (str ''<h1>'' @ title @ str ''</h1>'') (entryData xhtml)
    \<and> sublist (str ''<div style=\"white-space: pre-wrap;\">''
                 @ concat (map escapeUnit content) @ str ''</div>'') (entryData xhtml)
    \<and> sublist (str ''<dc:title>'' @ title @ str ''</dc:title>'') (entryData opf)
    \<and> sublist (str ''<docTitle><text>'' @ title @ str ''</text></docTitle>'') (entryData ncx)"
  using contentXhtml_parts [where title = title and c = "cleanContent content"]
    opfContent_parts [where title = title and now = now1]
    tocNcx_parts [where title = title and now = now2]
  by (simp add: entryNamed_createEPUB cleanContent_concat)

text \<open>A title with an ampersand and angle brackets stays as it is in the three
  documents, next to a body whose less-than sign is escaped.\<close>

theorem createEPUB_title_verbatim_witness:
  "\<exists>xhtml opf ncx.
      entryNamed (createEPUB 1700000000000 1700000000001 (str ''Tom & <Jerry>'') (str ''a<b''))
        (str ''OEBPS/content.xhtml'') = Some xhtml
    \<and> entryNamed (createEPUB 1700000000000 1700000000001 (str ''Tom & <Jerry>'') (str ''a<b''))
        (str ''OEBPS/content.opf'') = Some opf
    \<and> entryNamed (createEPUB 1700000000000 1700000000001 (str ''Tom & <Jerry>'') (str ''a<b''))
        (str ''OEBPS/toc.ncx'') = Some ncx
    \<and> sublist (str ''<title>Tom & <Jerry></title>'') (entryData xhtml)
    \<and> sublist (str ''<h1>Tom & <Jerry></h1>'') (entryData xhtml)
    \<and> sublist (str ''<div style=\"white-space: pre-wrap;\">a&lt;b</div>'') (entryData xhtml)
    \<and> sublist (str ''<dc:title>Tom & <Jerry></dc:title>'') (entryData opf)
    \<and> sublist (str ''<docTitle><text>Tom & <Jerry></text></docTitle>'') (entryData ncx)"
proof -
  have "str ''<title>'' @ str ''Tom & <Jerry>'' @ str ''</title>''
          = str ''<title>Tom & <Jerry></title>''"
    and "str ''<h1>'' @ str ''Tom & <Jerry>'' @ str ''</h1>'' = str ''<h1>Tom & <Jerry></h1>''"
    and "str ''<div style=\"white-space: pre-wrap;\">'' @ concat (map escapeUnit (str ''a<b''))
            @ str ''</div>''
          = str ''<div style=\"white-space: pre-wrap;\">a&lt;b</div>''"
    and "str ''<dc:title>'' @ str ''Tom & <Jerry>'' @ str ''</dc:title>''
          = str ''<dc:title>Tom & <Jerry></dc:title>''"
    and "str ''<docTitle><text>'' @ str ''Tom & <Jerry>'' @ str ''</text></docTitle>''
          = str ''<docTitle><text>Tom & <Jerry></text></docTitle>''"
    by (simp_all add: str_def escapeUnit_def)
  with createEPUB_title_verbatim [of 1700000000000 1700000000001 "str ''Tom & <Jerry>''"
      "str ''a<b''"]
  show ?thesis by simp
qed

subsection \<open>PDF pagination\<close>

lemma placementsFrom_append:
  "placementsFrom p (doc @ tail) = placementsFrom p doc @ placementsFrom (p + length doc) tail"
  by (induction doc arbitrary: p) simp_all

lemma placements_addPage: "placements (addPage doc) = placements doc"
  by (simp add: placements_def addPage_def placementsFrom_append)

lemma length_addPage: "length (addPage doc) = Suc (length doc)"
  by (simp add: addPage_def)

lemma length_doc_text: "doc \<noteq> [] \<Longrightarrow> length (doc_text t x y fs doc) = length doc"
  by (simp add: doc_text_def)

lemma placements_doc_text:
  assumes "doc \<noteq> []"
  shows "placements (doc_text t x y fs doc)
     = placements doc
       @ [(length doc - 1, \<lparr>drawnText = t, drawnX = x, drawnY = y, drawnFontSize = fs\<rparr>)]"
proof -
  from assms have split: "doc = butlast doc @ [last doc]" by simp
  have "placements doc
      = placementsFrom 0 (butlast doc) @ map (Pair (length doc - 1)) (last doc)"
    by (subst split) (simp add: placements_def placementsFrom_append)
  moreover have "placements (doc_text t x y fs doc)
      = placementsFrom 0 (butlast doc) @ map (Pair (length doc - 1)) (last doc)
        @ [(length doc - 1, \<lparr>drawnText = t, drawnX = x, drawnY = y, drawnFontSize = fs\<rparr>)]"
    by (simp add: placements_def doc_text_def placementsFrom_append)
  ultimately show ?thesis by simp
qed

lemma linePositionFrom_shift:
  "linePositionFrom pageH p y (Suc i)
     = linePositionFrom pageH (fst (linePositionFrom pageH p y 0))
         (snd (linePositionFrom pageH p y 0) + 6) i"
proof (induction i)
  case 0
  then show ?case by (simp add: Let_def split: prod.splits)
next
  case (Suc i)
  show ?case
    by (subst linePositionFrom.simps(2), subst Suc) simp
qed

lemma placements_layoutLines:
  "doc \<noteq> [] \<Longrightarrow>
   placements (layoutLines pageH ls y doc)
     = placements doc @ map (bodyDraw pageH (length doc - 1) y ls) [0..<length ls]"
proof (induction ls arbitrary: y doc)
  case Nil
  then show ?case by simp
next
  case (Cons l ls)
  let ?p = "length doc - 1"
  let ?q = "fst (linePositionFrom pageH ?p y 0)"
  let ?z = "snd (linePositionFrom pageH ?p y 0)"
  let ?doc1 = "if of_int y > pageH - 15 then addPage doc else doc"
  let ?doc2 = "doc_text l 15 (of_int ?z) 11 ?doc1"
  have ne1: "?doc1 \<noteq> []" using Cons.prems by (simp add: addPage_def)
  have len1: "length ?doc1 - 1 = ?q"
    using Cons.prems by (cases doc) (simp_all add: length_addPage)
  have ne2: "?doc2 \<noteq> []" by (simp add: doc_text_def)
  have len2: "length ?doc2 - 1 = ?q"
    by (simp only: length_doc_text [OF ne1] len1)
  have step: "layoutLines pageH (l # ls) y doc = layoutLines pageH ls (?z + 6) ?doc2"
    by simp
  have pl2: "placements ?doc2 = placements doc @ [bodyDraw pageH ?p y (l # ls) 0]"
    using placements_doc_text [OF ne1, of l 15 "of_int ?z" 11] len1
    by (simp add: bodyDraw_def placements_addPage)
  have rest: "map (bodyDraw pageH ?q (?z + 6) ls) [0..<length ls]
      = map (bodyDraw pageH ?p y (l # ls)) [Suc 0..<Suc (length ls)]"
  proof -
    have "bodyDraw pageH ?q (?z + 6) ls i = bodyDraw pageH ?p y (l # ls) (Suc i)" for i
      unfolding bodyDraw_def by (subst (1 2) linePositionFrom_shift) simp
    then show ?thesis
      by (simp add: map_Suc_upt [symmetric] del: upt_Suc)
  qed
  have "placements (layoutLines pageH (l # ls) y doc)
      = placements ?doc2 @ map (bodyDraw pageH ?q (?z + 6) ls) [0..<length ls]"
    unfolding step using Cons.IH [OF ne2, of "?z + 6"] by (simp only: len2)
  also have "\<dots> = placements doc @ bodyDraw pageH ?p y (l # ls) 0
      # map (bodyDraw pageH ?p y (l # ls)) [Suc 0..<Suc (length ls)]"
    by (simp only: pl2 rest append_assoc append_Cons append_Nil)
  also have "\<dots> = placements doc @ map (bodyDraw pageH ?p y (l # ls)) [0..<length (l # ls)]"
    by (simp add: upt_conv_Cons del: upt_Suc)
  finally show ?case .
qed

lemma length_layoutLines:
  "doc \<noteq> [] \<Longrightarrow>
   length (layoutLines pageH ls y doc)
     = (if ls = [] then length doc
        else Suc (fst (linePositionFrom pageH (length doc - 1) y (length ls - 1))))"
proof (induction ls arbitrary: y doc)
  case Nil
  then show ?case by simp
next
  case (Cons l ls)
  let ?p = "length doc - 1"
  let ?q = "fst (linePositionFrom pageH ?p y 0)"
  let ?z = "snd (linePositionFrom pageH ?p y 0)"
  let ?doc1 = "if of_int y > pageH - 15 then addPage doc else doc"
  let ?doc2 = "doc_text l 15 (of_int ?z) 11 ?doc1"
  have ne1: "?doc1 \<noteq> []" using Cons.prems by (simp add: addPage_def)
  have len1: "length ?doc1 - 1 = ?q"
    using Cons.prems by (cases doc) (simp_all add: length_addPage)
  have ne2: "?doc2 \<noteq> []" by (simp add: doc_text_def)
  have len2: "length ?doc2 - 1 = ?q"
    by (simp only: length_doc_text [OF ne1] len1)
  from ne2 len2 have len2': "length ?doc2 = Suc ?q"
    by (cases ?doc2) simp_all
  have step: "layoutLines pageH (l # ls) y doc = layoutLines pageH ls (?z + 6) ?doc2"
    by simp
  show ?case
  proof (cases ls)
    case Nil
    then show ?thesis unfolding step by (simp only: layoutLines.simps len2') simp
  next
    case (Cons l' ls')
    then have n: "length ls - 1 = length ls'" "ls \<noteq> []" by simp_all
    have "length (layoutLines pageH ls (?z + 6) ?doc2)
        = Suc (fst (linePositionFrom pageH ?q (?z + 6) (length ls - 1)))"
      using Cons.IH [OF ne2, of "?z + 6"] n(2) by (simp only: len2 if_False)
    also have "\<dots> = Suc (fst (linePositionFrom pageH ?p y (Suc (length ls'))))"
      by (simp only: n linePositionFrom_shift [of pageH ?p y "length ls'"])
    finally show ?thesis unfolding step using Cons by simp
  qed
qed

lemma set_placementsFrom: "snd ` set (placementsFrom p doc) = (\<Union>page\<in>set doc. set page)"
  by (induction doc arbitrary: p) (simp_all add: image_Un image_image)

lemma set_placements: "snd ` set (placements doc) = (\<Union>page\<in>set doc. set page)"
  by (simp add: placements_def set_placementsFrom)

lemma linePositionFrom_bounds:
  assumes "35 \<le> pageH" and "20 \<le> y"
  shows "20 \<le> snd (linePositionFrom pageH p y i)
         \<and> of_int (snd (linePositionFrom pageH p y i)) \<le> pageH - 15"
proof (induction i)
  case 0
  with assms show ?case by (simp add: not_less)
next
  case (Suc i)
  obtain q z where e: "linePositionFrom pageH p y i = (q, z)"
    by (cases "linePositionFrom pageH p y i")
  with Suc have z: "20 \<le> z" "of_int z \<le> pageH - 15" by simp_all
  show ?case
  proof (cases "of_int (z + 6) > pageH - 15")
    case True
    with e assms show ?thesis by simp
  next
    case False
    with e z show ?thesis by (simp add: not_less)
  qed
qed

lemma below_bound_strict:
  fixes pageH :: rat and z :: int
  assumes "of_int \<lfloor>pageH\<rfloor> \<noteq> pageH" and "of_int z \<le> pageH - 15"
  shows "of_int z < pageH - 15"
proof (rule ccontr)
  assume "\<not> of_int z < pageH - 15"
  with assms(2) have "pageH = of_int (z + 15)" by simp
  then have "of_int \<lfloor>pageH\<rfloor> = pageH" by (metis floor_of_int)
  with assms(1) show False by simp
qed

lemma linePosition_first_page:
  "i < firstPageCapacity pageH \<Longrightarrow> linePosition pageH i = (0, 30 + 6 * int i)"
proof (induction i)
  case 0
  then have "\<not> pageH - 15 < 30"
    by (simp add: firstPageCapacity_def split: if_splits)
  then show ?case by (simp add: linePosition_def)
next
  case (Suc i)
  then have prev: "linePosition pageH i = (0, 30 + 6 * int i)" by simp
  from Suc.prems have big: "\<not> pageH - 15 < 30" and "int (Suc i) \<le> \<lfloor>(pageH - 45) / 6\<rfloor>"
    by (simp_all add: firstPageCapacity_def split: if_splits)
  then have "of_int (int (Suc i)) \<le> (pageH - 45) / 6"
    by (simp only: le_floor_iff)
  then have "of_int (30 + 6 * int i + 6) \<le> pageH - 15"
    by simp
  with prev show ?case
    unfolding linePosition_def by (simp add: Let_def not_less)
qed

lemma linePosition_page_mono:
  "fst (linePositionFrom pageH p y i) \<le> fst (linePositionFrom pageH p y (Suc i))"
  by (simp add: Let_def split: prod.splits)

lemma linePosition_page_mono_le:
  "i \<le> j \<Longrightarrow> fst (linePositionFrom pageH p y i) \<le> fst (linePositionFrom pageH p y j)"
proof (induction j)
  case 0
  then show ?case by simp
next
  case (Suc j)
  show ?case
  proof (cases "i = Suc j")
    case True
    then show ?thesis by (simp only: order_refl)
  next
    case False
    with Suc.prems have "i \<le> j" by simp
    then have "fst (linePositionFrom pageH p y i) \<le> fst (linePositionFrom pageH p y j)"
      by (rule Suc.IH)
    also have "\<dots> \<le> fst (linePositionFrom pageH p y (Suc j))"
      by (rule linePosition_page_mono)
    finally show ?thesis .
  qed
qed

lemma linePosition_capacity:
  "0 < fst (linePosition pageH (firstPageCapacity pageH))"
proof (cases "firstPageCapacity pageH")
  case 0
  then have "pageH - 15 < 30"
    by (simp add: firstPageCapacity_def split: if_splits)
  with 0 show ?thesis by (simp add: linePosition_def)
next
  case (Suc k)
  then have "k < firstPageCapacity pageH" by simp
  then have prev: "linePosition pageH k = (0, 30 + 6 * int k)"
    by (rule linePosition_first_page)
  from Suc have k: "nat \<lfloor>(pageH - 45) / 6\<rfloor> = k" and big: "\<not> pageH - 15 < 30"
    by (simp_all add: firstPageCapacity_def split: if_splits)
  from big have "0 \<le> (pageH - 45) / 6" by simp
  then have "0 \<le> \<lfloor>(pageH - 45) / 6\<rfloor>" by simp
  then have "int (nat \<lfloor>(pageH - 45) / 6\<rfloor>) = \<lfloor>(pageH - 45) / 6\<rfloor>" by (rule nat_0_le)
  then have "int k = \<lfloor>(pageH - 45) / 6\<rfloor>" by (simp only: k)
  then have "(pageH - 45) / 6 < of_int (int k + 1)"
    by (metis floor_less_iff less_add_one)
  then have "pageH - 15 < of_int (30 + 6 * int k + 6)"
    by simp
  with prev Suc show ?thesis
    unfolding linePosition_def by (simp add: Let_def)
qed

lemma linePosition_later_page:
  "firstPageCapacity pageH \<le> i \<Longrightarrow> 0 < fst (linePosition pageH i)"
  using linePosition_capacity [of pageH]
    linePosition_page_mono_le [of "firstPageCapacity pageH" i pageH 0 30]
  by (simp add: linePosition_def)

lemma generatePDF_unfold:
  "generatePDF J safeTitle content
     = layoutLines (pageHeight J) (splitTextToSize J content (pageWidth J - 30)) 30
         [[\<lparr>drawnText = safeTitle, drawnX = 15, drawnY = 20, drawnFontSize = 16\<rparr>]]"
  by (simp add: generatePDF_def doc_text_def Let_def)

lemma generateFile_PDF:
  "generateFile J now1 now2 content (str ''PDF'') title
     = \<lparr>blob = PdfBlob (generatePDF J (removeExtension title) content), extension = str ''pdf''\<rparr>"
  by (simp add: generateFile_def Let_def)

lemma placements_generatePDF:
  "placements (generatePDF J safeTitle content)
     = (0, \<lparr>drawnText = safeTitle, drawnX = 15, drawnY = 20, drawnFontSize = 16\<rparr>)
       # map (\<lambda>i. (fst (linePosition (pageHeight J) i),
                   \<lparr>drawnText = splitTextToSize J content (pageWidth J - 30) ! i, drawnX = 15,
                    drawnY = of_int (snd (linePosition (pageHeight J) i)), drawnFontSize = 11\<rparr>))
           [0..<length (splitTextToSize J content (pageWidth J - 30))]"
  unfolding generatePDF_unfold
  by (subst placements_layoutLines)
     (simp_all add: placements_def bodyDraw_def linePosition_def del: upt_Suc)

lemma length_generatePDF:
  "1 < length (generatePDF J safeTitle content)
     \<longleftrightarrow> firstPageCapacity (pageHeight J) < length (splitTextToSize J content (pageWidth J - 30))"
proof -
  let ?H = "pageHeight J"
  let ?ls = "splitTextToSize J content (pageWidth J - 30)"
  have len: "length (generatePDF J safeTitle content)
      = (if ?ls = [] then 1 else Suc (fst (linePosition ?H (length ?ls - 1))))"
    unfolding generatePDF_unfold
    by (subst length_layoutLines) (simp_all add: linePosition_def)
  show ?thesis
  proof (cases "firstPageCapacity ?H < length ?ls")
    case True
    then have "firstPageCapacity ?H \<le> length ?ls - 1" and "?ls \<noteq> []" by auto
    then show ?thesis
      using True linePosition_later_page [of ?H "length ?ls - 1"] by (simp add: len)
  next
    case False
    show ?thesis
    proof (cases "?ls = []")
      case True
      with False show ?thesis by (simp add: len)
    next
      case ne: False
      with False have "length ?ls - 1 < firstPageCapacity ?H"
        by (cases ?ls) simp_all
      then have "linePosition ?H (length ?ls - 1) = (0, 30 + 6 * int (length ?ls - 1))"
        by (rule linePosition_first_page)
      with False ne show ?thesis by (simp add: len)
    qed
  qed
qed

lemma bounds_generatePDF:
  assumes "35 < pageHeight J" and "of_int \<lfloor>pageHeight J\<rfloor> \<noteq> pageHeight J"
    and "page \<in> set (generatePDF J safeTitle content)" and "d \<in> set page"
  shows "15 < drawnY d \<and> drawnY d < pageHeight J - 15"
proof -
  from assms(3,4) have "d \<in> snd ` set (placements (generatePDF J safeTitle content))"
    unfolding set_placements by blast
  then consider "d = \<lparr>drawnText = safeTitle, drawnX = 15, drawnY = 20, drawnFontSize = 16\<rparr>"
    | i where "drawnY d = of_int (snd (linePosition (pageHeight J) i))"
    unfolding placements_generatePDF by auto
  then show ?thesis
  proof cases
    case 1
    with assms(1) show ?thesis by simp
  next
    case (2 i)
    from assms(1) have "35 \<le> pageHeight J" by simp
    from linePositionFrom_bounds [OF this, of 30 0 i]
    have z: "20 \<le> snd (linePosition (pageHeight J) i)"
      "of_int (snd (linePosition (pageHeight J) i)) \<le> pageHeight J - 15"
      by (simp_all add: linePosition_def)
    from below_bound_strict [OF assms(2) z(2)] z(1) 2 show ?thesis by simp
  qed
qed

text \<open>
  Claim C3. With the PDF tag, \<open>generateFile\<close> draws the title and then every wrapped
  line once, in order, at the page and position the page break rule gives line by
  line: a line whose cursor exceeds the page height minus 15 goes to position 20 of a
  new page, any other line is drawn at the cursor, 6 below the line before. The
  document has more than one page exactly when there are more wrapped lines than fit
  on the first page. For a page height above 35 that is not a whole number, as the one
  of the default page of the library, every line of every page is drawn strictly
  between 15 and the page height minus 15.
\<close>

theorem generateFile_PDF_pagination:
  "\<exists>doc. generateFile J now1 now2 content (str ''PDF'') title
        = \<lparr>blob = PdfBlob doc, extension = str ''pdf''\<rparr>
    \<and> placements doc
        = (0, \<lparr>drawnText = removeExtension title, drawnX = 15, drawnY = 20,
               drawnFontSize = 16\<rparr>)
          # map (\<lambda>i. (fst (linePosition (pageHeight J) i),
                   \<lparr>drawnText = splitTextToSize J content (pageWidth J - 30) ! i, drawnX = 15,
                    drawnY = of_int (snd (linePosition (pageHeight J) i)), drawnFontSize = 11\<rparr>))
              [0..<length (splitTextToSize J content (pageWidth J - 30))]
    \<and> (1 < length doc
        \<longleftrightarrow> firstPageCapacity (pageHeight J)
              < length (splitTextToSize J content (pageWidth J - 30)))
    \<and> (35 < pageHeight J \<and> of_int \<lfloor>pageHeight J\<rfloor> \<noteq> pageHeight J \<longrightarrow>
        (\<forall>page\<in>set doc. \<forall>d\<in>set page. 15 < drawnY d \<and> drawnY d < pageHeight J - 15))"
  using placements_generatePDF [of J "removeExtension title" content]
    length_generatePDF [of J "removeExtension title" content]
    bounds_generatePDF [of J _ "removeExtension title" content]
  by (simp only: generateFile_PDF) blast

text \<open>Fifty short lines on the default page: forty-three fit on the first page, the
  document has more than one page and every line is within the bounds.\<close>

theorem generateFile_PDF_pagination_witness:
  "35 < a4Height \<and> of_int \<lfloor>a4Height\<rfloor> \<noteq> a4Height
   \<and> firstPageCapacity a4Height = 43
   \<and> length (splitTextToSize a4Document fiftyLines (pageWidth a4Document - 30)) = 50
   \<and> (\<exists>doc. generateFile a4Document 1700000000000 1700000000001 fiftyLines (str ''PDF'')
               (str ''report.txt'')
             = \<lparr>blob = PdfBlob doc, extension = str ''pdf''\<rparr>
          \<and> 1 < length doc
          \<and> list_all (list_all (\<lambda>d. 15 < drawnY d \<and> drawnY d < a4Height - 15)) doc)"
proof -
  have H: "pageHeight a4Document = a4Height"
    by (simp add: a4Document_def)
  have h1: "35 < a4Height"
    by code_simp
  have h2: "of_int \<lfloor>a4Height\<rfloor> \<noteq> a4Height"
    by code_simp
  have cap: "firstPageCapacity a4Height = 43"
    by code_simp
  have n: "length (splitTextToSize a4Document fiftyLines (pageWidth a4Document - 30)) = 50"
    by code_simp
  from generateFile_PDF_pagination [of a4Document 1700000000000 1700000000001 fiftyLines
      "str ''report.txt''"]
  obtain doc where
    g: "generateFile a4Document 1700000000000 1700000000001 fiftyLines (str ''PDF'')
          (str ''report.txt'') = \<lparr>blob = PdfBlob doc, extension = str ''pdf''\<rparr>"
    and l: "1 < length doc \<longleftrightarrow> firstPageCapacity (pageHeight a4Document)
              < length (splitTextToSize a4Document fiftyLines (pageWidth a4Document - 30))"
    and b: "35 < pageHeight a4Document
        \<and> of_int \<lfloor>pageHeight a4Document\<rfloor> \<noteq> pageHeight a4Document \<longrightarrow>
        (\<forall>page\<in>set doc. \<forall>d\<in>set page.
           15 < drawnY d \<and> drawnY d < pageHeight a4Document - 15)"
    by blast
  from l have "1 < length doc"
    by (simp only: H cap n)
  moreover from b h1 h2
  have "list_all (list_all (\<lambda>d. 15 < drawnY d \<and> drawnY d < a4Height - 15)) doc"
    by (simp add: H list_all_iff)
  ultimately show ?thesis
    using g h1 h2 cap n by blast
qed

subsection \<open>PDF text extraction\<close>

lemma pdfLoop_pages:
  "(\<forall>j. i \<le> j \<and> j \<le> numPages pdf \<longrightarrow> pageItems pdf j = Inr (items j)) \<Longrightarrow>
   pdfLoop pdf i acc
     = Inr (acc @ concat (map (\<lambda>j. nl @ nl @ join (str '' '') (items j)) [i..<Suc (numPages pdf)]))"
proof (induction pdf i acc rule: pdfLoop.induct)
  case (1 pdf i fullText)
  show ?case
  proof (cases "i \<le> numPages pdf")
    case True
    with "1.prems" have here: "pageItems pdf i = Inr (items i)" by simp
    from "1.prems" have later:
      "\<forall>j. Suc i \<le> j \<and> j \<le> numPages pdf \<longrightarrow> pageItems pdf j = Inr (items j)" by simp
    have range: "[i..<Suc (numPages pdf)] = i # [Suc i..<Suc (numPages pdf)]"
      using True by (simp add: upt_conv_Cons)
    have "pdfLoop pdf i fullText
            = pdfLoop pdf (Suc i) (fullText @ nl @ nl @ join (str '' '') (items i))"
      by (subst pdfLoop.simps) (simp only: True here if_True sum.case)
    also have "\<dots> = Inr ((fullText @ nl @ nl @ join (str '' '') (items i))
          @ concat (map (\<lambda>j. nl @ nl @ join (str '' '') (items j)) [Suc i..<Suc (numPages pdf)]))"
      by (rule "1.IH" [OF True here later])
    also have "\<dots> = Inr (fullText
          @ concat (map (\<lambda>j. nl @ nl @ join (str '' '') (items j)) [i..<Suc (numPages pdf)]))"
      unfolding range by simp
    finally show ?thesis .
  next
    case False
    then show ?thesis by (subst pdfLoop.simps) simp
  qed
qed

lemma countSeparators_skip: "a \<noteq> 0x0A \<Longrightarrow> countSeparators (a # xs) = countSeparators xs"
  by (cases xs) simp_all

lemma countSeparators_run: "0x0A \<notin> set t \<Longrightarrow> countSeparators (t @ rest) = countSeparators rest"
  by (induction t) (simp_all add: countSeparators_skip)

lemma join_space_no_newline:
  "\<forall>r\<in>set rs. 0x0A \<notin> set r \<Longrightarrow> 0x0A \<notin> set (join (str '' '') rs)"
  by (induction "str '' ''" rs rule: join.induct) (simp_all add: str_def)

lemma countSeparators_blocks:
  "\<forall>i\<in>set is. 0x0A \<notin> set (t i) \<Longrightarrow>
   countSeparators (concat (map (\<lambda>i. nl @ nl @ t i) is)) = length is"
  by (induction "is") (simp_all add: countSeparators_run)

text \<open>
  Claim C4, as amended. When the document loads and each of its pages 1 to N gives its
  text items, \<open>processPDF\<close> returns the concatenation of N blocks, one for each
  page index from 1 to N in ascending order: two newlines followed by the items of the
  page joined by one space, so two newlines alone for a page without items. When no
  item contains a newline, the double newline occurs exactly N times in the result.
\<close>

theorem processPDF_pages:
  assumes "load data = Inr pdf"
    and "\<forall>i. 1 \<le> i \<and> i \<le> numPages pdf \<longrightarrow> pageItems pdf i = Inr (items i)"
  shows "\<exists>blocks. processPDF (Some load) data = Inr (concat blocks)
         \<and> length blocks = numPages pdf
         \<and> (\<forall>i<numPages pdf. blocks ! i = nl @ nl @ join (str '' '') (items (Suc i)))
         \<and> (\<forall>i<numPages pdf. items (Suc i) = [] \<longrightarrow> blocks ! i = nl @ nl)
         \<and> ((\<forall>i. 1 \<le> i \<and> i \<le> numPages pdf \<longrightarrow> (\<forall>r\<in>set (items i). 0x0A \<notin> set r)) \<longrightarrow>
              countSeparators (concat blocks) = numPages pdf)"
proof -
  let ?blocks = "map (\<lambda>i. nl @ nl @ join (str '' '') (items i)) [1..<Suc (numPages pdf)]"
  have res: "processPDF (Some load) data = Inr (concat ?blocks)"
    using pdfLoop_pages [of 1 pdf items "[]"] assms by (simp add: processPDF_def)
  have len: "length ?blocks = numPages pdf"
    by simp
  have nth: "?blocks ! i = nl @ nl @ join (str '' '') (items (Suc i))" if "i < numPages pdf" for i
    using that by (simp add: nth_append del: upt_Suc)
  have empty: "?blocks ! i = nl @ nl" if "i < numPages pdf" and "items (Suc i) = []" for i
    using nth [OF that(1)] that(2) by simp
  have cnt: "countSeparators (concat ?blocks) = numPages pdf"
    if "\<forall>i. 1 \<le> i \<and> i \<le> numPages pdf \<longrightarrow> (\<forall>r\<in>set (items i). 0x0A \<notin> set r)"
  proof -
    from that have "\<forall>i\<in>set [1..<Suc (numPages pdf)]. 0x0A \<notin> set (join (str '' '') (items i))"
      by (auto intro!: join_space_no_newline)
    then show ?thesis
      using countSeparators_blocks [of "[1..<Suc (numPages pdf)]" "\<lambda>i. join (str '' '') (items i)"]
      by simp
  qed
  from res len nth empty cnt show ?thesis by blast
qed

text \<open>The two-page document: the result has two separators, the second one alone.\<close>

theorem processPDF_pages_witness:
  "exampleGetDocument [] = Inr examplePdf
   \<and> numPages examplePdf = 2
   \<and> pageItems examplePdf 1 = Inr [str ''Hello'', str ''world'']
   \<and> pageItems examplePdf 2 = Inr []
   \<and> processPDF (Some exampleGetDocument) []
       = Inr (str ''\<newline>\<newline>Hello world\<newline>\<newline>'')
   \<and> countSeparators (str ''\<newline>\<newline>Hello world\<newline>\<newline>'') = 2"
proof -
  have l: "exampleGetDocument [] = Inr examplePdf"
    by (simp add: exampleGetDocument_def)
  have n: "numPages examplePdf = 2"
    by (simp add: examplePdf_def)
  have p: "\<forall>i. 1 \<le> i \<and> i \<le> numPages examplePdf \<longrightarrow> pageItems examplePdf i = Inr (exampleItems i)"
    by (auto simp: examplePdf_def examplePageItems_def exampleItems_def)
  from processPDF_pages [where load = exampleGetDocument and data = "[]"
        and pdf = examplePdf and items = exampleItems, OF l p]
  obtain blocks where r: "processPDF (Some exampleGetDocument) [] = Inr (concat blocks)"
    and len: "length blocks = numPages examplePdf"
    and nth: "\<forall>i<numPages examplePdf.
        blocks ! i = nl @ nl @ join (str '' '') (exampleItems (Suc i))"
    by blast
  from len n have "blocks = [blocks ! 0, blocks ! 1]"
    by (cases blocks; cases "tl blocks") auto
  moreover from nth n have "blocks ! 0 = nl @ nl @ join (str '' '') (exampleItems (Suc 0))"
    and "blocks ! 1 = nl @ nl @ join (str '' '') (exampleItems (Suc 1))"
    by simp_all
  ultimately have "blocks = [nl @ nl @ join (str '' '') (exampleItems (Suc 0)),
      nl @ nl @ join (str '' '') (exampleItems (Suc 1))]"
    by simp
  moreover have "concat [nl @ nl @ join (str '' '') (exampleItems (Suc 0)),
      nl @ nl @ join (str '' '') (exampleItems (Suc 1))]
      = str ''\<newline>\<newline>Hello world\<newline>\<newline>''"
    by code_simp
  ultimately have "processPDF (Some exampleGetDocument) []
       = Inr (str ''\<newline>\<newline>Hello world\<newline>\<newline>'')"
    using r by simp
  moreover have "countSeparators (str ''\<newline>\<newline>Hello world\<newline>\<newline>'') = 2"
    by code_simp
  moreover have "pageItems examplePdf 1 = Inr [str ''Hello'', str ''world'']"
    "pageItems examplePdf 2 = Inr []"
    by (simp_all add: examplePdf_def examplePageItems_def)
  ultimately show ?thesis using l n by simp
qed

text \<open>
  Claim C4, as stated, fails: a three-page document, one of whose text items holds a
  double newline, gives a result in which the double newline occurs four times.
\<close>

theorem processPDF_separator_count_counterexample:
  "newlineGetDocument [] = Inr newlinePdf
   \<and> numPages newlinePdf = 3
   \<and> pageItems newlinePdf 1 = Inr [str ''Title'']
   \<and> pageItems newlinePdf 2 = Inr [str ''first\<newline>\<newline>second'']
   \<and> pageItems newlinePdf 3 = Inr []
   \<and> processPDF (Some newlineGetDocument) []
       = Inr (str ''\<newline>\<newline>Title\<newline>\<newline>first\<newline>\<newline>second\<newline>\<newline>'')
   \<and> countSeparators (str ''\<newline>\<newline>Title\<newline>\<newline>first\<newline>\<newline>second\<newline>\<newline>'') = 4
   \<and> countSeparators (str ''\<newline>\<newline>Title\<newline>\<newline>first\<newline>\<newline>second\<newline>\<newline>'')
       \<noteq> numPages newlinePdf"
proof -
  have l: "newlineGetDocument [] = Inr newlinePdf"
    by (simp add: newlineGetDocument_def)
  have n: "numPages newlinePdf = 3"
    by (simp add: newlinePdf_def)
  have p: "pageItems newlinePdf 1 = Inr [str ''Title'']"
    "pageItems newlinePdf 2 = Inr [str ''first\<newline>\<newline>second'']"
    "pageItems newlinePdf 3 = Inr []"
    by (simp_all add: newlinePdf_def newlinePageItems_def)
  have step: "pdfLoop newlinePdf i acc
      = (if i \<le> 3 then
           (case newlinePageItems i of
              Inl e \<Rightarrow> Inl e
            | Inr its \<Rightarrow> pdfLoop newlinePdf (Suc i) (acc @ nl @ nl @ join (str '' '') its))
         else Inr acc)" for i acc
    by (subst pdfLoop.simps) (simp add: newlinePdf_def)
  have r: "processPDF (Some newlineGetDocument) []
       = Inr (str ''\<newline>\<newline>Title\<newline>\<newline>first\<newline>\<newline>second\<newline>\<newline>'')"
    unfolding processPDF_def
    by (simp add: l step [of 1] step [of 2] step [of 3] step [of 4] step [of "Suc 0"]
        step [of "Suc (Suc 0)"] step [of "Suc (Suc (Suc 0))"] step [of "Suc (Suc (Suc (Suc 0)))"]
        newlinePageItems_def str_def)
  have c: "countSeparators (str ''\<newline>\<newline>Title\<newline>\<newline>first\<newline>\<newline>second\<newline>\<newline>'') = 4"
    by code_simp
  from l n p r c show ?thesis by simp
qed

subsection \<open>EPUB text extraction\<close>

lemma startsWith_prefix: "startsWith s p \<longleftrightarrow> prefix p s"
  by (induction s p rule: startsWith.induct) auto

lemma endsWith_suffix: "endsWith s p \<longleftrightarrow> suffix p s"
  by (simp add: endsWith_def startsWith_prefix suffix_to_prefix)

lemma includes_js_sublist: "includes_js s p \<longleftrightarrow> sublist p s"
proof (induction s)
  case Nil
  then show ?case by simp
next
  case (Cons c cs)
  then show ?case
    by (cases p) (simp_all add: startsWith_prefix sublist_Cons_right)
qed

lemma isContentDocument_iff:
  "isContentDocument n \<longleftrightarrow>
     (suffix (str ''.xhtml'') (map toLowerASCII n) \<or> suffix (str ''.html'') (map toLowerASCII n)
        \<or> suffix (str ''.htm'') (map toLowerASCII n))
     \<and> \<not> prefix (str ''__'') n \<and> \<not> sublist (str ''nav'') n \<and> \<not> sublist (str ''toc'') n"
  by (simp add: isContentDocument_def matchesSuffix_def Let_def endsWith_suffix
      startsWith_prefix includes_js_sublist)

lemma mset_insertSorted: "mset (insertSorted cmp a xs) = add_mset a (mset xs)"
  by (induction xs) simp_all

lemma mset_foldl_insertSorted:
  "mset (foldl (\<lambda>sorted a. insertSorted cmp a sorted) acc xs) = mset acc + mset xs"
  by (induction xs arbitrary: acc) (simp_all add: mset_insertSorted)

lemma mset_sortWith: "mset (sortWith cmp xs) = mset xs"
  by (simp add: sortWith_def mset_foldl_insertSorted)

lemma set_insertSorted: "set (insertSorted cmp a xs) = insert a (set xs)"
  by (induction xs) auto

lemma sorted_insertSorted:
  assumes anti: "\<forall>a\<in>S. \<forall>b\<in>S. 0 \<le> cmp a b \<longrightarrow> cmp b a \<le> 0"
    and trans: "\<forall>a\<in>S. \<forall>b\<in>S. \<forall>c\<in>S. cmp a b \<le> 0 \<and> cmp b c \<le> 0 \<longrightarrow> cmp a c \<le> 0"
    and a: "a \<in> S"
  shows "set xs \<subseteq> S \<Longrightarrow> sorted_wrt (\<lambda>a b. cmp a b \<le> 0) xs \<Longrightarrow>
         sorted_wrt (\<lambda>a b. cmp a b \<le> 0) (insertSorted cmp a xs)"
proof (induction xs)
  case Nil
  then show ?case by simp
next
  case (Cons b bs)
  from Cons.prems(1) have b: "b \<in> S" and bs: "set bs \<subseteq> S" by simp_all
  show ?case
  proof (cases "cmp a b < 0")
    case True
    then have ab: "cmp a b \<le> 0" by simp
    have "\<forall>c\<in>set bs. cmp a c \<le> 0"
    proof
      fix c assume c: "c \<in> set bs"
      with Cons.prems(2) have "cmp b c \<le> 0" by simp
      moreover from c bs have "c \<in> S" by blast
      ultimately show "cmp a c \<le> 0" using ab trans a b by blast
    qed
    with True ab Cons.prems(2) show ?thesis by simp
  next
    case False
    then have "0 \<le> cmp a b" by simp
    with anti a b have ba: "cmp b a \<le> 0" by blast
    from Cons.IH [OF bs] Cons.prems(2)
    have "sorted_wrt (\<lambda>a b. cmp a b \<le> 0) (insertSorted cmp a bs)" by simp
    with False ba Cons.prems(2) show ?thesis by (auto simp: set_insertSorted)
  qed
qed

lemma sorted_foldl_insertSorted:
  assumes anti: "\<forall>a\<in>S. \<forall>b\<in>S. 0 \<le> cmp a b \<longrightarrow> cmp b a \<le> 0"
    and trans: "\<forall>a\<in>S. \<forall>b\<in>S. \<forall>c\<in>S. cmp a b \<le> 0 \<and> cmp b c \<le> 0 \<longrightarrow> cmp a c \<le> 0"
  shows "set xs \<subseteq> S \<Longrightarrow> set acc \<subseteq> S \<Longrightarrow> sorted_wrt (\<lambda>a b. cmp a b \<le> 0) acc \<Longrightarrow>
         sorted_wrt (\<lambda>a b. cmp a b \<le> 0) (foldl (\<lambda>sorted a. insertSorted cmp a sorted) acc xs)"
proof (induction xs arbitrary: acc)
  case Nil
  then show ?case by simp
next
  case (Cons x xs)
  from Cons.prems(1) have x: "x \<in> S" and xs: "set xs \<subseteq> S" by simp_all
  have "sorted_wrt (\<lambda>a b. cmp a b \<le> 0) (insertSorted cmp x acc)"
    by (rule sorted_insertSorted [OF anti trans x Cons.prems(2,3)])
  moreover have "set (insertSorted cmp x acc) \<subseteq> S"
    using x Cons.prems(2) by (simp add: set_insertSorted)
  ultimately show ?case
    using Cons.IH [OF xs] by simp
qed

lemma sorted_sortWith:
  assumes "\<forall>a\<in>set xs. \<forall>b\<in>set xs. 0 \<le> cmp a b \<longrightarrow> cmp b a \<le> 0"
    and "\<forall>a\<in>set xs. \<forall>b\<in>set xs. \<forall>c\<in>set xs.
           cmp a b \<le> 0 \<and> cmp b c \<le> 0 \<longrightarrow> cmp a c \<le> 0"
  shows "sorted_wrt (\<lambda>a b. cmp a b \<le> 0) (sortWith cmp xs)"
  unfolding sortWith_def
  by (rule sorted_foldl_insertSorted [OF assms]) simp_all

lemma sorted_wrt_mset_unique:
  "sorted_wrt R xs \<Longrightarrow> sorted_wrt R ys \<Longrightarrow> mset xs = mset ys \<Longrightarrow>
   (\<forall>a\<in>set xs. \<forall>b\<in>set xs. R a b \<and> R b a \<longrightarrow> a = b) \<Longrightarrow> xs = ys"
proof (induction xs arbitrary: ys)
  case Nil
  then show ?case by simp
next
  case (Cons x xs)
  from Cons.prems(3) obtain y ys' where ys: "ys = y # ys'"
    by (cases ys) auto
  have sets: "set (x # xs) = set ys"
    using Cons.prems(3) by (metis set_mset_mset)
  have "x = y"
  proof (rule ccontr)
    assume ne: "x \<noteq> y"
    with sets ys have "y \<in> set xs" "x \<in> set ys'" by auto
    with Cons.prems(1,2) ys have "R x y" "R y x" by auto
    moreover have "x \<in> set (x # xs)" "y \<in> set (x # xs)" using sets ys by auto
    ultimately show False using Cons.prems(4) ne by blast
  qed
  with Cons.prems ys have "xs = ys'"
    by (intro Cons.IH) auto
  with \<open>x = y\<close> ys show ?case by simp
qed

lemma completionOrder_Nil: "\<forall>xs. mset (completionOrder P xs) = mset xs \<Longrightarrow> completionOrder P [] = []"
  by (metis mset_zero_iff)

text \<open>
  Claim C6. When the archive loads and none of its entries is a content document (a
  name that ends in \<open>.xhtml\<close>, \<open>.html\<close> or \<open>.htm\<close> whatever the case of the
  letters, does not start with \<open>__\<close> and contains neither \<open>nav\<close> nor \<open>toc\<close>),
  \<open>processEPUB\<close> does not fail and returns the fixed message, which is not the empty
  string.
\<close>

theorem processEPUB_no_content:
  assumes "loadAsync P data = Inr files"
    and "\<forall>xs. mset (completionOrder P xs) = mset xs"
    and "\<forall>f\<in>set files.
           \<not> ((suffix (str ''.xhtml'') (map toLowerASCII (zipName f))
                 \<or> suffix (str ''.html'') (map toLowerASCII (zipName f))
                 \<or> suffix (str ''.htm'') (map toLowerASCII (zipName f)))
               \<and> \<not> prefix (str ''__'') (zipName f)
               \<and> \<not> sublist (str ''nav'') (zipName f)
               \<and> \<not> sublist (str ''toc'') (zipName f))"
  shows "processEPUB P data tag = Inr (str ''Error: No text content extracted from EPUB.'')
         \<and> str ''Error: No text content extracted from EPUB.'' \<noteq> []"
proof -
  from assms(3) have "filter (\<lambda>f. isContentDocument (zipName f)) files = []"
    by (simp add: isContentDocument_iff)
  moreover from assms(2) have "completionOrder P [] = []"
    by (rule completionOrder_Nil)
  ultimately have "processEPUB P data tag = Inr noContentMessage"
    using assms(1) by (simp add: processEPUB_def sortWith_def)
  then show ?thesis by (simp add: noContentMessage_def str_def)
qed

text \<open>An archive with a navigation document, a resource-fork copy and an image, and no
  content document.\<close>

theorem processEPUB_no_content_witness:
  "processEPUB barePlatform [] (str ''Markdown'')
     = Inr (str ''Error: No text content extracted from EPUB.'')"
proof -
  have l: "loadAsync barePlatform [] = Inr bareFiles"
    by (simp add: barePlatform_def examplePlatform_def bareLoadAsync_def)
  have c: "\<forall>xs. mset (completionOrder barePlatform xs) = mset xs"
    by (simp add: barePlatform_def examplePlatform_def inOrder_def)
  have n: "\<forall>f\<in>set bareFiles.
           \<not> ((suffix (str ''.xhtml'') (map toLowerASCII (zipName f))
                 \<or> suffix (str ''.html'') (map toLowerASCII (zipName f))
                 \<or> suffix (str ''.htm'') (map toLowerASCII (zipName f)))
               \<and> \<not> prefix (str ''__'') (zipName f)
               \<and> \<not> sublist (str ''nav'') (zipName f)
               \<and> \<not> sublist (str ''toc'') (zipName f))"
    by code_simp
  from processEPUB_no_content [OF l c n] show ?thesis by simp
qed


lemma readAll_ok:
  "\<forall>f\<in>set fs. zipString f = Inr (source f) \<Longrightarrow>
   readAll fs = Inr (map (\<lambda>f. \<lparr>htmlName = zipName f, htmlContent = source f\<rparr>) fs)"
  by (induction fs) simp_all

lemma appendDocs_ok:
  "\<forall>s. td s = Inr (md s) \<Longrightarrow>
   appendDocs td acc fs = Inr (acc @ concat (map (\<lambda>f. nl @ nl @ md (htmlContent f)) fs))"
  by (induction fs arbitrary: acc) simp_all

lemma concat_blocks_Nil:
  "concat (map (\<lambda>f. nl @ nl @ g f) fs) = [] \<longleftrightarrow> fs = []"
  by (cases fs) simp_all

lemma distinct_map_eq:
  "distinct (map k xs) \<Longrightarrow> x \<in> set xs \<Longrightarrow> y \<in> set xs \<Longrightarrow> k x = k y \<Longrightarrow> x = y"
  by (meson distinct_map inj_onD)

lemma rootCollation_neg:
  "rootCollation a b < 0 \<longleftrightarrow>
     map toLowerASCII a < map toLowerASCII b
     \<or> (map toLowerASCII a = map toLowerASCII b \<and> b < a)"
  by (auto simp: rootCollation_def Let_def)

lemma rootCollation_pos:
  "0 < rootCollation a b \<longleftrightarrow>
     map toLowerASCII b < map toLowerASCII a
     \<or> (map toLowerASCII a = map toLowerASCII b \<and> a < b)"
  by (auto simp: rootCollation_def Let_def)

lemma rootCollation_le:
  "rootCollation a b \<le> 0 \<longleftrightarrow>
     map toLowerASCII a < map toLowerASCII b
     \<or> (map toLowerASCII a = map toLowerASCII b \<and> b \<le> a)"
  by (auto simp: rootCollation_def Let_def)

lemma rootCollation_zero: "rootCollation a b = 0 \<longrightarrow> a = b"
  by (auto simp: rootCollation_def Let_def split: if_splits)

lemma rootCollation_sym: "(rootCollation a b < 0) = (0 < rootCollation b a)"
  unfolding rootCollation_neg rootCollation_pos by auto

lemma rootCollation_trans:
  "rootCollation a b \<le> 0 \<and> rootCollation b c \<le> 0 \<longrightarrow> rootCollation a c \<le> 0"
  unfolding rootCollation_le by (auto intro: less_trans order_trans)

text \<open>
  Claim C2, as amended. When the archive loads, the content documents are read and
  converted, and \<open>localeCompare\<close> is a consistent comparison on the paths of the
  content documents, \<open>processEPUB\<close> concatenates the content documents in an order
  that is sorted for \<open>localeCompare\<close> on their paths; when moreover these paths are
  distinct and no two different ones compare equal, that order is the only sorted
  one, so that it depends neither on the physical order of the archive nor on the
  order in which the reads complete.
\<close>

theorem processEPUB_collation_order:
  assumes load: "loadAsync P data = Inr files"
    and perm: "\<forall>xs. mset (completionOrder P xs) = mset xs"
    and reads: "\<forall>f\<in>set files. isContentDocument (zipName f) \<longrightarrow> zipString f = Inr (source f)"
    and td: "\<forall>s. turndown P s = Inr (md s)"
    and sym: "\<forall>a\<in>set (contentPaths files). \<forall>b\<in>set (contentPaths files).
                (localeCompare P a b < 0) = (0 < localeCompare P b a)"
    and trans: "\<forall>a\<in>set (contentPaths files). \<forall>b\<in>set (contentPaths files).
                \<forall>c\<in>set (contentPaths files).
                  localeCompare P a b \<le> 0 \<and> localeCompare P b c \<le> 0
                  \<longrightarrow> localeCompare P a c \<le> 0"
  shows "\<exists>docs.
      mset docs = mset (map (\<lambda>f. \<lparr>htmlName = zipName f, htmlContent = source f\<rparr>)
                         (filter (\<lambda>f. isContentDocument (zipName f)) files))
    \<and> sorted_wrt (\<lambda>a b. localeCompare P (htmlName a) (htmlName b) \<le> 0) docs
    \<and> processEPUB P data tag
        = Inr (if docs = [] then noContentMessage
               else concat (map (\<lambda>d. nl @ nl @ md (htmlContent d)) docs))
    \<and> (distinct (contentPaths files)
        \<and> (\<forall>a\<in>set (contentPaths files). \<forall>b\<in>set (contentPaths files).
              localeCompare P a b = 0 \<longrightarrow> a = b) \<longrightarrow>
        (\<forall>others. mset others = mset docs
            \<and> sorted_wrt (\<lambda>a b. localeCompare P (htmlName a) (htmlName b) \<le> 0) others
          \<longrightarrow> others = docs))"
proof -
  let ?matched = "filter (\<lambda>f. isContentDocument (zipName f)) files"
  let ?toHtml = "\<lambda>f. \<lparr>htmlName = zipName f, htmlContent = source f\<rparr>"
  let ?cmp = "\<lambda>a b. localeCompare P (htmlName a) (htmlName b)"
  let ?le = "\<lambda>a b. localeCompare P (htmlName a) (htmlName b) \<le> 0"
  let ?done = "completionOrder P ?matched"
  let ?docs = "sortWith ?cmp (map ?toHtml ?done)"
  have paths: "set (contentPaths files) = zipName ` set ?matched"
    by (simp add: contentPaths_def)
  have done_mset: "mset ?done = mset ?matched"
    using perm by simp
  then have done_set: "set ?done = set ?matched"
    by (rule mset_eq_setD)
  have names: "htmlName d \<in> set (contentPaths files)" if "d \<in> set (map ?toHtml ?done)" for d
    using that unfolding paths set_map done_set by auto
  have "\<forall>f\<in>set ?done. zipString f = Inr (source f)"
    using reads done_set by simp
  then have read: "readAll ?done = Inr (map ?toHtml ?done)"
    by (rule readAll_ok)
  have anti': "\<forall>a\<in>set (map ?toHtml ?done). \<forall>b\<in>set (map ?toHtml ?done).
      0 \<le> ?cmp a b \<longrightarrow> ?cmp b a \<le> 0"
  proof (intro ballI impI)
    fix a b
    assume "a \<in> set (map ?toHtml ?done)" "b \<in> set (map ?toHtml ?done)" "0 \<le> ?cmp a b"
    with sym names [of a] names [of b] show "?cmp b a \<le> 0"
      by (metis linorder_not_less)
  qed
  have trans': "\<forall>a\<in>set (map ?toHtml ?done). \<forall>b\<in>set (map ?toHtml ?done).
      \<forall>c\<in>set (map ?toHtml ?done). ?cmp a b \<le> 0 \<and> ?cmp b c \<le> 0 \<longrightarrow> ?cmp a c \<le> 0"
  proof (intro ballI impI)
    fix a b c
    assume "a \<in> set (map ?toHtml ?done)" "b \<in> set (map ?toHtml ?done)"
      "c \<in> set (map ?toHtml ?done)" "?cmp a b \<le> 0 \<and> ?cmp b c \<le> 0"
    with trans names [of a] names [of b] names [of c] show "?cmp a c \<le> 0"
      by blast
  qed
  have m: "mset ?docs = mset (map ?toHtml ?matched)"
    using done_mset by (simp add: mset_sortWith)
  have s: "sorted_wrt ?le ?docs"
    by (rule sorted_sortWith [OF anti' trans'])
  have r: "processEPUB P data tag
        = Inr (if ?docs = [] then noContentMessage
               else concat (map (\<lambda>d. nl @ nl @ md (htmlContent d)) ?docs))"
    using load read appendDocs_ok [OF td, of "[]" ?docs]
    by (simp add: processEPUB_def concat_blocks_Nil)
  have u: "others = ?docs"
    if d: "distinct (contentPaths files)"
      and z: "\<forall>a\<in>set (contentPaths files). \<forall>b\<in>set (contentPaths files).
              localeCompare P a b = 0 \<longrightarrow> a = b"
      and o: "mset others = mset ?docs" "sorted_wrt ?le others" for others
  proof (rule sorted_wrt_mset_unique [where R = ?le, OF o(2) s o(1)], intro ballI impI)
    fix a b
    assume a: "a \<in> set others" and b: "b \<in> set others" and ab: "?le a b \<and> ?le b a"
    have "set others = ?toHtml ` set ?matched"
      using o(1) m by (metis mset_eq_setD set_map)
    with a b obtain f g where f: "f \<in> set ?matched" "a = ?toHtml f"
      and g: "g \<in> set ?matched" "b = ?toHtml g"
      by auto
    from f g have in_paths: "htmlName a \<in> set (contentPaths files)"
      "htmlName b \<in> set (contentPaths files)"
      unfolding paths by auto
    with ab sym have "localeCompare P (htmlName a) (htmlName b) = 0"
      by (metis linorder_not_less order_antisym_conv)
    with z in_paths have "htmlName a = htmlName b" by blast
    with f g have "zipName f = zipName g" by simp
    moreover from d have "distinct (map zipName ?matched)" by (simp add: contentPaths_def)
    ultimately have "f = g" using f(1) g(1) by (metis distinct_map_eq)
    with f g show "a = b" by simp
  qed
  from m s r u show ?thesis by blast
qed

text \<open>The example archive under the collation of the browsers: the documents come out
  in the collation order of their paths, which is not their physical order.\<close>

theorem processEPUB_collation_order_witness:
  "processEPUB examplePlatform [] (str ''Markdown'')
     = Inr (str ''\<newline>\<newline>first\<newline>\<newline>second\<newline>\<newline>third'')
   \<and> map zipName exampleFiles
       = [str ''mimetype'', str ''b.html'', str ''Z.html'', str ''toc.html'', str ''a.html'']
   \<and> map htmlName exampleDocs = [str ''a.html'', str ''b.html'', str ''Z.html'']
   \<and> sorted_wrt (\<lambda>a b. rootCollation (htmlName a) (htmlName b) \<le> 0) exampleDocs"
proof -
  let ?P = examplePlatform
  have cmp: "localeCompare ?P = rootCollation"
    by (simp add: examplePlatform_def)
  have load: "loadAsync ?P [] = Inr exampleFiles"
    by (simp add: examplePlatform_def exampleLoadAsync_def)
  have perm: "\<forall>xs. mset (completionOrder ?P xs) = mset xs"
    by (simp add: examplePlatform_def inOrder_def)
  have reads: "\<forall>f\<in>set exampleFiles.
      isContentDocument (zipName f) \<longrightarrow> zipString f = Inr (exampleSource f)"
    by code_simp
  have td: "\<forall>s. turndown ?P s = Inr ((\<lambda>s. s) s)"
    by (simp add: examplePlatform_def plainTurndown_def)
  have sym: "\<forall>a\<in>set (contentPaths exampleFiles). \<forall>b\<in>set (contentPaths exampleFiles).
                (localeCompare ?P a b < 0) = (0 < localeCompare ?P b a)"
    unfolding cmp using rootCollation_sym by blast
  have trans: "\<forall>a\<in>set (contentPaths exampleFiles). \<forall>b\<in>set (contentPaths exampleFiles).
                \<forall>c\<in>set (contentPaths exampleFiles).
                  localeCompare ?P a b \<le> 0 \<and> localeCompare ?P b c \<le> 0
                  \<longrightarrow> localeCompare ?P a c \<le> 0"
    unfolding cmp using rootCollation_trans by blast
  have names: "distinct (contentPaths exampleFiles)"
    by code_simp
  have zero: "\<forall>a\<in>set (contentPaths exampleFiles). \<forall>b\<in>set (contentPaths exampleFiles).
                localeCompare ?P a b = 0 \<longrightarrow> a = b"
    unfolding cmp using rootCollation_zero by blast
  have sorted: "sorted_wrt (\<lambda>a b. rootCollation (htmlName a) (htmlName b) \<le> 0) exampleDocs"
    by code_simp
  have same: "mset exampleDocs
      = mset (map (\<lambda>f. \<lparr>htmlName = zipName f, htmlContent = exampleSource f\<rparr>)
                         (filter (\<lambda>f. isContentDocument (zipName f)) exampleFiles))"
    by code_simp
  from processEPUB_collation_order [OF load perm reads td sym trans, of "str ''Markdown''"]
  obtain docs where all:
    "mset docs = mset (map (\<lambda>f. \<lparr>htmlName = zipName f, htmlContent = exampleSource f\<rparr>)
                         (filter (\<lambda>f. isContentDocument (zipName f)) exampleFiles))
    \<and> sorted_wrt (\<lambda>a b. localeCompare ?P (htmlName a) (htmlName b) \<le> 0) docs
    \<and> processEPUB ?P [] (str ''Markdown'')
        = Inr (if docs = [] then noContentMessage
               else concat (map (\<lambda>d. nl @ nl @ htmlContent d) docs))
    \<and> (distinct (contentPaths exampleFiles)
        \<and> (\<forall>a\<in>set (contentPaths exampleFiles). \<forall>b\<in>set (contentPaths exampleFiles).
              localeCompare ?P a b = 0 \<longrightarrow> a = b) \<longrightarrow>
        (\<forall>others. mset others = mset docs
            \<and> sorted_wrt (\<lambda>a b. localeCompare ?P (htmlName a) (htmlName b) \<le> 0) others
          \<longrightarrow> others = docs))" ..
  from all have d: "mset docs = mset exampleDocs"
    unfolding same [symmetric] by (rule conjunct1)
  from all have r: "processEPUB ?P [] (str ''Markdown'')
        = Inr (if docs = [] then noContentMessage
               else concat (map (\<lambda>d. nl @ nl @ htmlContent d) docs))"
    by (rule conjunct2 [THEN conjunct2, THEN conjunct1])
  from all have "distinct (contentPaths exampleFiles)
        \<and> (\<forall>a\<in>set (contentPaths exampleFiles). \<forall>b\<in>set (contentPaths exampleFiles).
              localeCompare ?P a b = 0 \<longrightarrow> a = b) \<longrightarrow>
        (\<forall>others. mset others = mset docs
            \<and> sorted_wrt (\<lambda>a b. localeCompare ?P (htmlName a) (htmlName b) \<le> 0) others
          \<longrightarrow> others = docs)"
    by (rule conjunct2 [THEN conjunct2, THEN conjunct2])
  then have "\<forall>others. mset others = mset docs
            \<and> sorted_wrt (\<lambda>a b. localeCompare ?P (htmlName a) (htmlName b) \<le> 0) others
          \<longrightarrow> others = docs"
    using names zero by (rule mp [OF _ conjI])
  then have "mset exampleDocs = mset docs
            \<and> sorted_wrt (\<lambda>a b. localeCompare ?P (htmlName a) (htmlName b) \<le> 0) exampleDocs
          \<longrightarrow> exampleDocs = docs"
    by (rule spec)
  moreover have "sorted_wrt (\<lambda>a b. localeCompare ?P (htmlName a) (htmlName b) \<le> 0) exampleDocs"
    unfolding cmp by (rule sorted)
  ultimately have "exampleDocs = docs"
    using d by (simp only:)
  with r have "processEPUB ?P [] (str ''Markdown'')
        = Inr (if exampleDocs = [] then noContentMessage
               else concat (map (\<lambda>d. nl @ nl @ htmlContent d) exampleDocs))"
    by simp
  moreover have "(if exampleDocs = [] then noContentMessage
               else concat (map (\<lambda>d. nl @ nl @ htmlContent d) exampleDocs))
      = str ''\<newline>\<newline>first\<newline>\<newline>second\<newline>\<newline>third''"
    by code_simp
  moreover have "map zipName exampleFiles
       = [str ''mimetype'', str ''b.html'', str ''Z.html'', str ''toc.html'', str ''a.html'']"
    by (simp add: exampleFiles_def)
  moreover have "map htmlName exampleDocs = [str ''a.html'', str ''b.html'', str ''Z.html'']"
    by (simp add: exampleDocs_def)
  ultimately show ?thesis using sorted by simp
qed

text \<open>
  Claim C2, as stated, fails: with the collation of the browsers, the three content
  documents of the example archive are concatenated in the order \<open>a.html\<close>,
  \<open>b.html\<close>, \<open>Z.html\<close>, whereas the ordinal order of the paths puts
  \<open>Z.html\<close> first.
\<close>

theorem processEPUB_ordinal_counterexample:
  "map zipName (sortWith (\<lambda>a b. ordinalCompare (zipName a) (zipName b))
       (filter (\<lambda>f. isContentDocument (zipName f)) exampleFiles))
     = [str ''Z.html'', str ''a.html'', str ''b.html'']
   \<and> processEPUB examplePlatform [] (str ''Markdown'')
       = Inr (str ''\<newline>\<newline>first\<newline>\<newline>second\<newline>\<newline>third'')
   \<and> processEPUB examplePlatform [] (str ''Markdown'')
       \<noteq> Inr (str ''\<newline>\<newline>third\<newline>\<newline>first\<newline>\<newline>second'')"
  by code_simp

subsection \<open>Conversion Orchestrator\<close>

lemma convert_success:
  assumes "atob P (base64 fileData) = Inr binaryString"
    and "extractText P fileData (map ucast binaryString) tag = Inr content"
  shows "convert P fileData tag = Inr (formatOutput (isoNow P) content tag)"
  using assms by (simp add: convert_def)

lemma convert_caught:
  assumes "atob P (base64 fileData) = Inr binaryString"
    and "extractText P fileData (map ucast binaryString) tag = Inl err"
  shows "convert P fileData tag = catchHandler err"
  using assms by (simp add: convert_def)

lemma extractText_raises:
  assumes "(fileType fileData = str ''application/pdf''
            \<and> processPDF (getDocument P) data = Inl err)
         \<or> (fileType fileData \<noteq> str ''application/pdf''
            \<and> (sublist (str ''epub'') (fileType fileData)
                 \<or> suffix (str ''.epub'') (map toLowerASCII (fileName fileData)))
            \<and> processEPUB P data tag = Inl err)"
  shows "extractText P fileData data tag = Inl err"
  using assms by (auto simp: extractText_def includes_js_sublist endsWith_suffix)

lemma catchHandler_cases:
  "catchHandler NoMessage = Inr (str ''PROCESSING ERROR: Unknown error'')"
  "catchHandler (StringMessage m)
     = Inr (str ''PROCESSING ERROR: '' @ (if m = [] then str ''Unknown error'' else m))"
  "catchHandler (OtherMessage (Inr s)) = Inr (str ''PROCESSING ERROR: '' @ s)"
  by (simp_all add: catchHandler_def str_def)

text \<open>
  Claim C5, as amended. Once the base64 text is decoded: when the extraction succeeds,
  \<open>convert\<close> returns the formatted text, the formatter raising nothing; when the PDF
  extractor or the EPUB extractor raises a value whose message can be read,
  \<open>convert\<close> does not fail and returns \<open>PROCESSING ERROR: \<close> followed by the
  message when it is a non-empty string, by \<open>Unknown error\<close> when it is absent, empty
  or otherwise falsy, and by the message converted to a string when it is a truthy
  value of another type that converts.
\<close>

theorem convert_catches:
  assumes "atob P (base64 fileData) = Inr binaryString"
  shows "(\<forall>content. extractText P fileData (map ucast binaryString) tag = Inr content \<longrightarrow>
            convert P fileData tag = Inr (formatOutput (isoNow P) content tag))
    \<and> (\<forall>err. (fileType fileData = str ''application/pdf''
                \<and> processPDF (getDocument P) (map ucast binaryString) = Inl err)
             \<or> (fileType fileData \<noteq> str ''application/pdf''
                \<and> (sublist (str ''epub'') (fileType fileData)
                     \<or> suffix (str ''.epub'') (map toLowerASCII (fileName fileData)))
                \<and> processEPUB P (map ucast binaryString) tag = Inl err) \<longrightarrow>
          (err = NoMessage \<longrightarrow>
             convert P fileData tag = Inr (str ''PROCESSING ERROR: Unknown error''))
        \<and> (\<forall>m. err = StringMessage m \<longrightarrow>
             convert P fileData tag
               = Inr (str ''PROCESSING ERROR: '' @ (if m = [] then str ''Unknown error'' else m)))
        \<and> (\<forall>s. err = OtherMessage (Inr s) \<longrightarrow>
             convert P fileData tag = Inr (str ''PROCESSING ERROR: '' @ s)))"
proof (intro conjI allI impI)
  fix content
  assume "extractText P fileData (map ucast binaryString) tag = Inr content"
  with assms show "convert P fileData tag = Inr (formatOutput (isoNow P) content tag)"
    by (rule convert_success)
next
  fix err
  assume "(fileType fileData = str ''application/pdf''
                \<and> processPDF (getDocument P) (map ucast binaryString) = Inl err)
             \<or> (fileType fileData \<noteq> str ''application/pdf''
                \<and> (sublist (str ''epub'') (fileType fileData)
                     \<or> suffix (str ''.epub'') (map toLowerASCII (fileName fileData)))
                \<and> processEPUB P (map ucast binaryString) tag = Inl err)"
    and "err = NoMessage"
  then show "convert P fileData tag = Inr (str ''PROCESSING ERROR: Unknown error'')"
    using convert_caught [OF assms extractText_raises] catchHandler_cases(1) by simp
next
  fix err m
  assume "(fileType fileData = str ''application/pdf''
                \<and> processPDF (getDocument P) (map ucast binaryString) = Inl err)
             \<or> (fileType fileData \<noteq> str ''application/pdf''
                \<and> (sublist (str ''epub'') (fileType fileData)
                     \<or> suffix (str ''.epub'') (map toLowerASCII (fileName fileData)))
                \<and> processEPUB P (map ucast binaryString) tag = Inl err)"
    and "err = StringMessage m"
  then show "convert P fileData tag
               = Inr (str ''PROCESSING ERROR: '' @ (if m = [] then str ''Unknown error'' else m))"
    using convert_caught [OF assms extractText_raises] catchHandler_cases(2) by simp
next
  fix err s
  assume "(fileType fileData = str ''application/pdf''
                \<and> processPDF (getDocument P) (map ucast binaryString) = Inl err)
             \<or> (fileType fileData \<noteq> str ''application/pdf''
                \<and> (sublist (str ''epub'') (fileType fileData)
                     \<or> suffix (str ''.epub'') (map toLowerASCII (fileName fileData)))
                \<and> processEPUB P (map ucast binaryString) tag = Inl err)"
    and "err = OtherMessage (Inr s)"
  then show "convert P fileData tag = Inr (str ''PROCESSING ERROR: '' @ s)"
    using convert_caught [OF assms extractText_raises] catchHandler_cases(3) by simp
qed

text \<open>A PDF whose loading task rejects with a message: the preview shows the message.\<close>

theorem convert_catches_witness:
  "atob invalidPlatform (base64 pdfFile) = Inr (str ''%PDF-'')
   \<and> fileType pdfFile = str ''application/pdf''
   \<and> processPDF (getDocument invalidPlatform) (map ucast (str ''%PDF-''))
       = Inl (StringMessage (str ''Invalid PDF structure.''))
   \<and> convert invalidPlatform pdfFile (str ''Markdown'')
       = Inr (str ''PROCESSING ERROR: Invalid PDF structure.'')"
proof -
  have a: "atob invalidPlatform (base64 pdfFile) = Inr (str ''%PDF-'')"
    by code_simp
  have t: "fileType pdfFile = str ''application/pdf''"
    by (simp add: pdfFile_def)
  have p: "processPDF (getDocument invalidPlatform) (map ucast (str ''%PDF-''))
       = Inl (StringMessage (str ''Invalid PDF structure.''))"
    by (simp add: invalidPlatform_def examplePlatform_def processPDF_def invalidGetDocument_def)
  have m: "str ''PROCESSING ERROR: ''
             @ (if str ''Invalid PDF structure.'' = [] then str ''Unknown error''
                else str ''Invalid PDF structure.'')
             = str ''PROCESSING ERROR: Invalid PDF structure.''"
    by (simp add: str_def)
  from convert_catches [OF a, of "str ''Markdown''"]
  have "\<forall>err. (fileType pdfFile = str ''application/pdf''
                \<and> processPDF (getDocument invalidPlatform) (map ucast (str ''%PDF-'')) = Inl err)
             \<or> (fileType pdfFile \<noteq> str ''application/pdf''
                \<and> (sublist (str ''epub'') (fileType pdfFile)
                     \<or> suffix (str ''.epub'') (map toLowerASCII (fileName pdfFile)))
                \<and> processEPUB invalidPlatform (map ucast (str ''%PDF-'')) (str ''Markdown'')
                    = Inl err) \<longrightarrow>
          (err = NoMessage \<longrightarrow>
             convert invalidPlatform pdfFile (str ''Markdown'')
               = Inr (str ''PROCESSING ERROR: Unknown error''))
        \<and> (\<forall>m. err = StringMessage m \<longrightarrow>
             convert invalidPlatform pdfFile (str ''Markdown'')
               = Inr (str ''PROCESSING ERROR: '' @ (if m = [] then str ''Unknown error'' else m)))
        \<and> (\<forall>s. err = OtherMessage (Inr s) \<longrightarrow>
             convert invalidPlatform pdfFile (str ''Markdown'')
               = Inr (str ''PROCESSING ERROR: '' @ s))"
    by (rule conjunct2)
  with t p have "convert invalidPlatform pdfFile (str ''Markdown'')
       = Inr (str ''PROCESSING ERROR: ''
             @ (if str ''Invalid PDF structure.'' = [] then str ''Unknown error''
                else str ''Invalid PDF structure.''))"
    by blast
  with a t p show ?thesis by (simp only: m)
qed

text \<open>
  Claim C5, as stated, fails. For an error whose message is empty the preview is not
  the prefix followed by the message; and when the loading task rejects with
  \<open>null\<close>, the handler itself raises and \<open>convert\<close> fails.
\<close>

theorem convert_empty_message_counterexample:
  "atob silentPlatform (base64 pdfFile) = Inr (str ''%PDF-'')
   \<and> processPDF (getDocument silentPlatform) (map ucast (str ''%PDF-'')) = Inl (StringMessage [])
   \<and> convert silentPlatform pdfFile (str ''Markdown'') = Inr (str ''PROCESSING ERROR: Unknown error'')
   \<and> convert silentPlatform pdfFile (str ''Markdown'') \<noteq> Inr (str ''PROCESSING ERROR: '' @ [])
   \<and> processPDF (getDocument nullPlatform) (map ucast (str ''%PDF-''))
       = Inl (Unreadable (StringMessage (str ''Cannot read properties of null'')))
   \<and> convert nullPlatform pdfFile (str ''Markdown'')
       = Inl (StringMessage (str ''Cannot read properties of null''))"
  by code_simp

end
